theory Spec2Isabelle
  imports Complex_Main
begin

section \<open>JavaScript values used by the modelled code\<close>

text \<open>
  Finite JavaScript numbers are modelled as exact reals; the rounding error of IEEE
  doubles is not modelled.  The three non-finite values a division can produce are kept
  apart, because the code under study divides by totals that can be zero.
\<close>

datatype jsnum = Num real | PosInf | NegInf | NaN

text \<open>\<^verbatim>\<open>xs.sort((a, b) => key(a) - key(b))\<close>: ascending by key, stable (ES2019).\<close>

definition js_sort_by :: "('a \<Rightarrow> real) \<Rightarrow> 'a list \<Rightarrow> 'a list" where
  "js_sort_by key xs = sort_key key xs"

text \<open>\<^verbatim>\<open>xs.slice(0, c)\<close> for an integral \<open>c\<close>: a negative end counts from the back.\<close>

definition js_slice0 :: "'a list \<Rightarrow> int \<Rightarrow> 'a list" where
  "js_slice0 xs c = (if c < 0 then take (length xs - nat (- c)) xs else take (nat c) xs)"

section \<open>Equity API: gainers and losers\<close>

record MarketRow =
  mkt_symbol :: string
  pChange :: real

text \<open>
  \<^verbatim>\<open>getGainers(data, count)\<close>: \<^verbatim>\<open>data.data.filter(d => d.pChange > 0)
  .sort((a, b) => b.pChange - a.pChange)\<close>, then \<^verbatim>\<open>slice(0, count)\<close> when a count is given.
\<close>

definition getGainers :: "MarketRow list \<Rightarrow> int option \<Rightarrow> MarketRow list" where
  "getGainers data count =
     (let filtered = js_sort_by (\<lambda>d. - pChange d) (filter (\<lambda>d. pChange d > 0) data)
      in case count of Some c \<Rightarrow> js_slice0 filtered c | None \<Rightarrow> filtered)"

text \<open>
  \<^verbatim>\<open>getLosers(data, count)\<close>: \<^verbatim>\<open>data.data.filter(d => d.pChange < 0)
  .sort((a, b) => a.pChange - b.pChange)\<close>, then \<^verbatim>\<open>slice(0, count)\<close> when a count is given.
\<close>

definition getLosers :: "MarketRow list \<Rightarrow> int option \<Rightarrow> MarketRow list" where
  "getLosers data count =
     (let filtered = js_sort_by (\<lambda>d. pChange d) (filter (\<lambda>d. pChange d < 0) data)
      in case count of Some c \<Rightarrow> js_slice0 filtered c | None \<Rightarrow> filtered)"

text \<open>The rows of the specification's example, and the rows of the repository's unit test.\<close>

definition spec_rows :: "MarketRow list" where
  "spec_rows =
     [\<lparr>mkt_symbol = ''A'', pChange = -1\<rparr>, \<lparr>mkt_symbol = ''B'', pChange = 2\<rparr>,
      \<lparr>mkt_symbol = ''C'', pChange = 5\<rparr>, \<lparr>mkt_symbol = ''D'', pChange = 3\<rparr>]"

definition test_loser_rows :: "MarketRow list" where
  "test_loser_rows =
     [\<lparr>mkt_symbol = ''A'', pChange = -1\<rparr>, \<lparr>mkt_symbol = ''B'', pChange = 2\<rparr>,
      \<lparr>mkt_symbol = ''C'', pChange = -5\<rparr>, \<lparr>mkt_symbol = ''D'', pChange = 3\<rparr>]"

section \<open>Number helpers of the option-chain code\<close>

text \<open>\<^verbatim>\<open>a / b\<close> on finite numbers: a zero divisor gives a non-finite value.\<close>

definition js_div :: "real \<Rightarrow> real \<Rightarrow> jsnum" where
  "js_div a b =
     (if b = 0 then (if a = 0 then NaN else if a > 0 then PosInf else NegInf)
      else Num (a / b))"

text \<open>\<^verbatim>\<open>Math.round\<close>: the nearest integer, a tie going up.\<close>

definition js_round :: "jsnum \<Rightarrow> jsnum" where
  "js_round v = (case v of Num x \<Rightarrow> Num (of_int \<lfloor>x + 1 / 2\<rfloor>) | _ \<Rightarrow> v)"

text \<open>\<^verbatim>\<open>m * v\<close> for a finite \<open>m\<close>: zero times an infinity is NaN.\<close>

definition js_mul :: "real \<Rightarrow> jsnum \<Rightarrow> jsnum" where
  "js_mul m v =
     (case v of
        Num x \<Rightarrow> Num (m * x)
      | NaN \<Rightarrow> NaN
      | PosInf \<Rightarrow> (if m = 0 then NaN else if m > 0 then PosInf else NegInf)
      | NegInf \<Rightarrow> (if m = 0 then NaN else if m > 0 then NegInf else PosInf))"

text \<open>
  \<^verbatim>\<open>Number(x.toFixed(2))\<close> on a finite \<open>x\<close>: the nearest multiple of 1/100, a tie going
  away from zero; from \<open>10^21\<close> on \<^verbatim>\<open>toFixed\<close> prints the number itself.
\<close>

definition round2 :: "real \<Rightarrow> real" where
  "round2 x =
     (if \<bar>x\<bar> \<ge> 10 ^ 21 then x else sgn x * of_int \<lfloor>\<bar>x\<bar> * 100 + 1 / 2\<rfloor> / 100)"

text \<open>\<^verbatim>\<open>Number(v.toFixed(2))\<close>: NaN and the infinities print and parse as themselves.\<close>

definition toFixed2 :: "jsnum \<Rightarrow> jsnum" where
  "toFixed2 v = (case v of Num x \<Rightarrow> Num (round2 x) | _ \<Rightarrow> v)"

text \<open>\<^verbatim>\<open>[...new Set(xs)]\<close>: each element is added in turn, and adding an
  element the set already holds changes nothing.\<close>

definition new_Set :: "'a list \<Rightarrow> 'a list" where
  "new_Set xs = foldl (\<lambda>acc x. if x \<in> set acc then acc else acc @ [x]) [] xs"

section \<open>Option-chain payloads\<close>

text \<open>
  One leg and one row type serve both response schemas: a v3 row carries
  \<^verbatim>\<open>expiryDates\<close> and its legs \<^verbatim>\<open>change\<close>, a legacy row carries \<^verbatim>\<open>expiryDate\<close>
  and its legs \<^verbatim>\<open>chg\<close>.  A field a payload does not carry is \<open>None\<close> where the code
  tests for it.
\<close>

record OptionLeg =
  openInterest :: real
  changeinOpenInterest :: real
  lastPrice :: real
  change :: real
  chg :: real
  pchange :: real
  impliedVolatility :: real
  totalTradedVolume :: real

record OptionChainRow =
  strikePrice :: real
  expiryDates :: "string option"
  expiryDate :: "string option"
  CE :: "OptionLeg option"
  PE :: "OptionLeg option"

record OptionChainResponse =
  records_timestamp :: string
  records_underlyingValue :: real
  records_data :: "OptionChainRow list"
  filtered_data :: "OptionChainRow list"

section \<open>Max pain\<close>

text \<open>
  The body of the inner loop of \<^verbatim>\<open>calculateMaxPainV3\<close> and \<^verbatim>\<open>calculateMaxPain\<close>,
  for a row \<open>y\<close> that passed the expiry test.
\<close>

definition pain_step :: "real \<Rightarrow> real \<Rightarrow> OptionChainRow \<Rightarrow> real" where
  "pain_step expiryStrike pain y =
     (let diff = expiryStrike - strikePrice y;
          pain1 = (case CE y of
                     Some ce \<Rightarrow> if diff > 0 then pain + (- diff) * openInterest ce else pain
                   | None \<Rightarrow> pain)
      in case PE y of
           Some pe \<Rightarrow> if diff < 0 then pain1 + diff * openInterest pe else pain1
         | None \<Rightarrow> pain1)"

text \<open>The inner loop: rows failing the expiry test are skipped.\<close>

definition pain_of :: "(OptionChainRow \<Rightarrow> bool) \<Rightarrow> OptionChainRow list \<Rightarrow> real \<Rightarrow> real" where
  "pain_of matches rows expiryStrike =
     foldl (\<lambda>pain y. if matches y then pain_step expiryStrike pain y else pain) 0 rows"

text \<open>
  \<^verbatim>\<open>painMap\<close> is a JavaScript object keyed by the strike: an association list in the
  order in which the keys were created; assigning to an existing key keeps its place.
\<close>

type_synonym painMap = "(real \<times> real) list"

definition pm_put :: "real \<Rightarrow> real \<Rightarrow> painMap \<Rightarrow> painMap" where
  "pm_put k v pm =
     (if map_of pm k = None then pm @ [(k, v)]
      else map (\<lambda>(k', v'). if k' = k then (k', v) else (k', v')) pm)"

text \<open>\<^verbatim>\<open>painMap[k]\<close> for a key of the map (the code reads no other).\<close>

definition pm_get :: "painMap \<Rightarrow> real \<Rightarrow> real" where
  "pm_get pm k = (case map_of pm k of Some v \<Rightarrow> v | None \<Rightarrow> 0)"

text \<open>The outer loop: one entry per strike of a row that passes the expiry test.\<close>

definition build_painMap :: "(OptionChainRow \<Rightarrow> bool) \<Rightarrow> OptionChainRow list \<Rightarrow> painMap" where
  "build_painMap matches rows =
     foldl (\<lambda>pm x. if matches x then pm_put (strikePrice x) (pain_of matches rows (strikePrice x)) pm
                    else pm) [] rows"

text \<open>
  \<^verbatim>\<open>Object.keys(painMap).map(Number)\<close>: the keys that are array indices (integers from 0
  to \<open>2^32 - 2\<close>) come first, in ascending numeric order; the other keys follow in the
  order of their creation.
\<close>

definition is_array_index :: "real \<Rightarrow> bool" where
  "is_array_index k \<longleftrightarrow> of_int \<lfloor>k\<rfloor> = k \<and> 0 \<le> k \<and> k < 4294967295"

definition object_keys :: "painMap \<Rightarrow> real list" where
  "object_keys pm =
     (let ks = map fst pm
      in sort (filter is_array_index ks) @ filter (\<lambda>k. \<not> is_array_index k) ks)"

text \<open>\<^verbatim>\<open>strikes.sort((a, b) => painMap[b] - painMap[a])\<close>: descending pain, stable.\<close>

definition sorted_by_pain :: "(OptionChainRow \<Rightarrow> bool) \<Rightarrow> OptionChainRow list \<Rightarrow> real list" where
  "sorted_by_pain matches rows =
     (let painMap = build_painMap matches rows;
          strikes = object_keys painMap
      in js_sort_by (\<lambda>a. - pm_get painMap a) strikes)"

text \<open>\<^verbatim>\<open>xs[0] || 0\<close>: the first element, and 0 when there is none or when it is 0.\<close>

definition first_or_zero :: "real list \<Rightarrow> real" where
  "first_or_zero xs = (case xs of [] \<Rightarrow> 0 | x # _ \<Rightarrow> if x = 0 then 0 else x)"

text \<open>\<^verbatim>\<open>calculateMaxPainV3(optionChain, expiry)\<close> of \<^verbatim>\<open>options-api.ts\<close>.\<close>

definition calculateMaxPainV3 :: "OptionChainResponse \<Rightarrow> string \<Rightarrow> real" where
  "calculateMaxPainV3 optionChain expiry =
     first_or_zero (sorted_by_pain (\<lambda>x. expiryDates x = Some expiry) (records_data optionChain))"

text \<open>
  \<^verbatim>\<open>x.expiryDates || x.expiryDate\<close>: the first when it is a non-empty string, else the
  second.
\<close>

definition itemExpiry :: "OptionChainRow \<Rightarrow> string option" where
  "itemExpiry x =
     (case expiryDates x of
        Some s \<Rightarrow> if s = [] then expiryDate x else Some s
      | None \<Rightarrow> expiryDate x)"

text \<open>
  \<^verbatim>\<open>calculateMaxPain(optionChain, expiryDate)\<close> of \<^verbatim>\<open>options-api.ts\<close>, for both
  schemas.  \<^verbatim>\<open>formatDateExpiry\<close> lives in a module that is not among the sources; it
  is a parameter.
\<close>

definition calculateMaxPain :: "('d \<Rightarrow> string) \<Rightarrow> OptionChainResponse \<Rightarrow> 'd \<Rightarrow> real" where
  "calculateMaxPain formatDateExpiry optionChain date =
     (let expiryDateStr = formatDateExpiry date
      in first_or_zero
           (sorted_by_pain (\<lambda>x. itemExpiry x = Some expiryDateStr) (records_data optionChain)))"

text \<open>
  The older \<^verbatim>\<open>calculateMaxPain\<close> that the legacy compiler calls: legacy rows only,
  and no \<^verbatim>\<open>|| 0\<close>, so the result is \<^verbatim>\<open>undefined\<close> (\<open>None\<close>) when no row matches.
\<close>

definition calculateMaxPain_legacy ::
  "('d \<Rightarrow> string) \<Rightarrow> OptionChainResponse \<Rightarrow> 'd \<Rightarrow> real option" where
  "calculateMaxPain_legacy formatDateExpiry optionChain date =
     (let expiryDateStr = formatDateExpiry date
      in case sorted_by_pain (\<lambda>x. expiryDate x = Some expiryDateStr) (records_data optionChain) of
           [] \<Rightarrow> None
         | k # _ \<Rightarrow> Some k)"

section \<open>Max pain as the specification words it\<close>

text \<open>Open interest of a leg; a missing leg contributes nothing to either loop.\<close>

definition callOI :: "OptionChainRow \<Rightarrow> real" where
  "callOI y = (case CE y of Some ce \<Rightarrow> openInterest ce | None \<Rightarrow> 0)"

definition putOI :: "OptionChainRow \<Rightarrow> real" where
  "putOI y = (case PE y of Some pe \<Rightarrow> openInterest pe | None \<Rightarrow> 0)"

text \<open>
  The specification's \<open>pain(K)\<close>: the two sums over the rows \<open>S\<close> of the target expiry,
  \<open>(K > S) ? -(K - S) * callOI(S) : 0\<close> and \<open>(K < S) ? (K - S) * putOI(S) : 0\<close>.
\<close>

definition spec_pain :: "(OptionChainRow \<Rightarrow> bool) \<Rightarrow> OptionChainRow list \<Rightarrow> real \<Rightarrow> real" where
  "spec_pain matches rows K =
     (\<Sum>y\<leftarrow>filter matches rows. if K > strikePrice y then - (K - strikePrice y) * callOI y else 0)
     + (\<Sum>y\<leftarrow>filter matches rows. if K < strikePrice y then (K - strikePrice y) * putOI y else 0)"

text \<open>
  The specification's tie-break, read as written: the candidate strikes in the order in
  which the payload lists them, sorted by descending pain with a stable sort; the first
  one is the result.
\<close>

definition spec_maxPain :: "(OptionChainRow \<Rightarrow> bool) \<Rightarrow> OptionChainRow list \<Rightarrow> real" where
  "spec_maxPain matches rows =
     (let strikes = new_Set (map strikePrice (filter matches rows))
      in first_or_zero (js_sort_by (\<lambda>k. - spec_pain matches rows k) strikes))"

text \<open>
  The order in which the code considers the candidates: the distinct strikes of the
  matching rows, those that are array indices first and ascending, the others after them
  in the order of their first row.
\<close>

definition maxpain_candidates :: "(OptionChainRow \<Rightarrow> bool) \<Rightarrow> OptionChainRow list \<Rightarrow> real list" where
  "maxpain_candidates matches rows =
     (let ks = new_Set (map strikePrice (filter matches rows))
      in sort (filter is_array_index ks) @ filter (\<lambda>k. \<not> is_array_index k) ks)"

text \<open>The first candidate, in that order, whose pain no candidate exceeds.\<close>

definition first_max_pain :: "(OptionChainRow \<Rightarrow> bool) \<Rightarrow> OptionChainRow list \<Rightarrow> real option" where
  "first_max_pain matches rows =
     (let cands = maxpain_candidates matches rows
      in List.find (\<lambda>k. \<forall>k'\<in>set cands. spec_pain matches rows k' \<le> spec_pain matches rows k) cands)"

text \<open>
  Example payloads.  The tests build legs that carry \<^verbatim>\<open>openInterest\<close> only; the other
  fields, which max pain never reads, are 0 here.
\<close>

definition oi_leg :: "real \<Rightarrow> OptionLeg" where
  "oi_leg n = \<lparr>openInterest = n, changeinOpenInterest = 0, lastPrice = 0, change = 0, chg = 0,
     pchange = 0, impliedVolatility = 0, totalTradedVolume = 0\<rparr>"

definition v3_row :: "string \<Rightarrow> real \<Rightarrow> real \<Rightarrow> real \<Rightarrow> OptionChainRow" where
  "v3_row e k coi poi = \<lparr>strikePrice = k, expiryDates = Some e, expiryDate = None,
     CE = Some (oi_leg coi), PE = Some (oi_leg poi)\<rparr>"

definition legacy_row :: "string \<Rightarrow> real \<Rightarrow> real \<Rightarrow> real \<Rightarrow> OptionChainRow" where
  "legacy_row e k coi poi = \<lparr>strikePrice = k, expiryDates = None, expiryDate = Some e,
     CE = Some (oi_leg coi), PE = Some (oi_leg poi)\<rparr>"

definition response :: "real \<Rightarrow> OptionChainRow list \<Rightarrow> OptionChainRow list \<Rightarrow> OptionChainResponse" where
  "response u rows frows = \<lparr>records_timestamp = ''26-Sep-2025 15:30:00'',
     records_underlyingValue = u, records_data = rows, filtered_data = frows\<rparr>"

text \<open>Strikes 100, 110, 120 with call open interest 10, 5, 0 and put open interest 0, 5, 15.\<close>

definition spec_chain_v3 :: OptionChainResponse where
  "spec_chain_v3 = response 110
     [v3_row ''26-Sep-2025'' 100 10 0, v3_row ''26-Sep-2025'' 110 5 5,
      v3_row ''26-Sep-2025'' 120 0 15] []"

definition spec_chain_legacy :: OptionChainResponse where
  "spec_chain_legacy = response 110
     [legacy_row ''26-Sep-2025'' 100 10 0, legacy_row ''26-Sep-2025'' 110 5 5,
      legacy_row ''26-Sep-2025'' 120 0 15] []"

text \<open>The same three rows, listed from the highest strike down.\<close>

definition descending_chain_v3 :: OptionChainResponse where
  "descending_chain_v3 = response 110
     [v3_row ''26-Sep-2025'' 120 0 15, v3_row ''26-Sep-2025'' 110 5 5,
      v3_row ''26-Sep-2025'' 100 10 0] []"

section \<open>Compiling an option chain\<close>

datatype error = TypeError | InvalidRangeError

text \<open>One side of an entry of \<^verbatim>\<open>chain[strike]\<close>: \<^verbatim>\<open>{ last, oi, chg, iv }\<close>.\<close>

record ChainLeg =
  leg_last :: real
  leg_oi :: real
  leg_chg :: real
  leg_iv :: real

text \<open>\<^verbatim>\<open>chain[strike]\<close>: \<^verbatim>\<open>{ pe, ce, pcr }\<close>, where \<^verbatim>\<open>pcr\<close> is a number or \<^verbatim>\<open>null\<close>.\<close>

record ChainEntry =
  entry_pe :: ChainLeg
  entry_ce :: ChainLeg
  entry_pcr :: "jsnum option"

text \<open>
  The compiled chain.  \<^verbatim>\<open>atm\<close> and \<^verbatim>\<open>pcr\<close> are results of a division, \<^verbatim>\<open>maxpain\<close>
  is \<^verbatim>\<open>undefined\<close> (\<open>None\<close>) when the older max-pain function finds no row.
\<close>

record CompiledOptionChain =
  oc_expiry :: string
  oc_timestamp :: string
  underlying :: real
  atm :: jsnum
  maxpain :: "real option"
  maxCoi :: real
  maxPoi :: real
  coiTotal :: real
  poiTotal :: real
  pcr :: jsnum
  chain :: "real \<rightharpoonup> ChainEntry"

text \<open>The variables the compiling loop updates.\<close>

record CompileState =
  st_maxCoi :: real
  st_maxPoi :: real
  totalCoi :: real
  totalPoi :: real
  maxCoiStrike :: real
  maxPoiStrike :: real
  st_chain :: "real \<rightharpoonup> ChainEntry"

definition init_state :: CompileState where
  "init_state = \<lparr>st_maxCoi = 0, st_maxPoi = 0, totalCoi = 0, totalPoi = 0,
     maxCoiStrike = 0, maxPoiStrike = 0, st_chain = Map.empty\<rparr>"

definition zero_leg :: ChainLeg where
  "zero_leg = \<lparr>leg_last = 0, leg_oi = 0, leg_chg = 0, leg_iv = 0\<rparr>"

definition chain_leg :: "(OptionLeg \<Rightarrow> real) \<Rightarrow> OptionLeg \<Rightarrow> ChainLeg" where
  "chain_leg chgsel l = \<lparr>leg_last = lastPrice l, leg_oi = openInterest l, leg_chg = chgsel l,
     leg_iv = impliedVolatility l\<rparr>"

text \<open>
  The body of the loop over \<^verbatim>\<open>data.records.data\<close>, the same in both compilers but for
  the leg field read into \<^verbatim>\<open>chg\<close> (\<^verbatim>\<open>change\<close> in v3, \<^verbatim>\<open>chg\<close> in the legacy code):
  the put leg, then the call leg, then the per-strike ratio.
\<close>

definition compile_step :: "(OptionLeg \<Rightarrow> real) \<Rightarrow> CompileState \<Rightarrow> OptionChainRow \<Rightarrow> CompileState" where
  "compile_step chgsel st idx =
     (let strike = strikePrice idx;
          poi = (case PE idx of Some l \<Rightarrow> openInterest l | None \<Rightarrow> 0);
          coi = (case CE idx of Some l \<Rightarrow> openInterest l | None \<Rightarrow> 0);
          pe = (case PE idx of Some l \<Rightarrow> chain_leg chgsel l | None \<Rightarrow> zero_leg);
          ce = (case CE idx of Some l \<Rightarrow> chain_leg chgsel l | None \<Rightarrow> zero_leg);
          st1 = (case PE idx of
                   Some l \<Rightarrow>
                     (let s = st\<lparr>totalPoi := totalPoi st + poi\<rparr>
                      in if poi > st_maxPoi s then s\<lparr>st_maxPoi := poi, maxPoiStrike := strike\<rparr>
                         else s)
                 | None \<Rightarrow> st);
          st2 = (case CE idx of
                   Some l \<Rightarrow>
                     (let s = st1\<lparr>totalCoi := totalCoi st1 + coi\<rparr>
                      in if coi > st_maxCoi s then s\<lparr>st_maxCoi := coi, maxCoiStrike := strike\<rparr>
                         else s)
                 | None \<Rightarrow> st1);
          ratio = (if poi = 0 \<or> coi = 0 then None else Some (toFixed2 (js_div poi coi)))
      in st2\<lparr>st_chain := (st_chain st2)(strike \<mapsto>
            \<lparr>entry_pe = pe, entry_ce = ce, entry_pcr = ratio\<rparr>)\<rparr>)"

text \<open>
  The strike interval of the v3 compiler:
  \<^verbatim>\<open>[...new Set(data.map(d => d.strikePrice))].sort((a, b) => a - b)\<close>, then
  \<^verbatim>\<open>strikes.length > 1 ? strikes[1] - strikes[0] : 50\<close>.
\<close>

definition sorted_strikes :: "OptionChainRow list \<Rightarrow> real list" where
  "sorted_strikes rows = js_sort_by (\<lambda>a. a) (new_Set (map strikePrice rows))"

definition strike_interval :: "OptionChainRow list \<Rightarrow> real" where
  "strike_interval rows =
     (let strikes = sorted_strikes rows
      in if length strikes > 1 then strikes ! 1 - strikes ! 0 else 50)"

text \<open>
  \<^verbatim>\<open>compileOptionChainV3(symbol, expiry)\<close> of \<^verbatim>\<open>options-api.ts\<close>, as a function of
  the payload that \<^verbatim>\<open>getOptionChainV3\<close> fetched for the symbol and the expiry.
\<close>

definition compileOptionChainV3 :: "OptionChainResponse \<Rightarrow> string \<Rightarrow> CompiledOptionChain" where
  "compileOptionChainV3 data expiry =
     (let u = records_underlyingValue data;
          multiple = strike_interval (records_data data);
          st = foldl (compile_step change) init_state (records_data data)
      in \<lparr>oc_expiry = expiry, oc_timestamp = records_timestamp data, underlying = u,
           atm = js_mul multiple (js_round (js_div u multiple)),
           maxpain = Some (calculateMaxPainV3 data expiry),
           maxCoi = maxCoiStrike st, maxPoi = maxPoiStrike st,
           coiTotal = totalCoi st, poiTotal = totalPoi st,
           pcr = (if totalCoi st > 0 then toFixed2 (js_div (totalPoi st) (totalCoi st)) else Num 0),
           chain = st_chain st\<rparr>)"

text \<open>
  The legacy \<^verbatim>\<open>compileOptionChain(symbol, expiryDate)\<close>, as a function of the payload
  that the legacy \<^verbatim>\<open>getOptionChain\<close> fetched.  Reading \<^verbatim>\<open>data.filtered.data[0]\<close> and
  \<^verbatim>\<open>[1]\<close> throws when the filtered list has fewer than two rows; rows of another
  expiry are skipped; the chain-level ratio is divided without a test.
\<close>

definition compileOptionChain ::
  "('d \<Rightarrow> string) \<Rightarrow> OptionChainResponse \<Rightarrow> 'd \<Rightarrow> error + CompiledOptionChain" where
  "compileOptionChain formatDateExpiry data date =
     (let expiryDateStr = formatDateExpiry date
      in case filtered_data data of
           f0 # f1 # _ \<Rightarrow>
             (let multiple = strikePrice f0 - strikePrice f1;
                  u = records_underlyingValue data;
                  st = foldl (\<lambda>st idx. if expiryDate idx \<noteq> Some expiryDateStr then st
                                        else compile_step chg st idx)
                         init_state (records_data data)
              in Inr \<lparr>oc_expiry = expiryDateStr, oc_timestamp = records_timestamp data,
                   underlying = u,
                   atm = js_mul multiple (js_round (js_div u multiple)),
                   maxpain = calculateMaxPain_legacy formatDateExpiry data date,
                   maxCoi = maxCoiStrike st, maxPoi = maxPoiStrike st,
                   coiTotal = totalCoi st, poiTotal = totalPoi st,
                   pcr = toFixed2 (js_div (totalPoi st) (totalCoi st)),
                   chain = st_chain st\<rparr>)
         | _ \<Rightarrow> Inl TypeError)"

text \<open>
  \<^verbatim>\<open>compileOptionChain(symbol, expiryDate)\<close> as \<^verbatim>\<open>options-api.ts\<close> has it now: it
  formats the date and hands over to the v3 compiler.
\<close>

definition compileOptionChain_delegating ::
  "('d \<Rightarrow> string) \<Rightarrow> OptionChainResponse \<Rightarrow> 'd \<Rightarrow> CompiledOptionChain" where
  "compileOptionChain_delegating formatDateExpiry data date =
     compileOptionChainV3 data (formatDateExpiry date)"

section \<open>The filtered (essential) view\<close>

record EssentialLeg =
  e_lastPrice :: real
  e_change :: real
  e_pchange :: real
  e_openInterest :: real
  e_changeinOpenInterest :: real
  e_impliedVolatility :: real
  e_totalTradedVolume :: real

record EssentialRow =
  e_strikePrice :: real
  e_expiryDate :: "string option"
  e_CE :: "EssentialLeg option"
  e_PE :: "EssentialLeg option"

text \<open>
  The result of \<^verbatim>\<open>getFilteredOptionChainV3\<close>.  The string \<^verbatim>\<open>strikeRange\<close> is kept as
  its two numbers; the upper-cased symbol, which is copied from the request, is left out.
\<close>

record FilteredChain =
  f_underlyingValue :: real
  atmStrike :: real
  f_timestamp :: string
  minStrike :: real
  maxStrike :: real
  totalStrikes :: nat
  f_data :: "EssentialRow list"

definition essential_leg :: "OptionLeg \<Rightarrow> EssentialLeg" where
  "essential_leg l = \<lparr>e_lastPrice = lastPrice l, e_change = change l, e_pchange = pchange l,
     e_openInterest = openInterest l, e_changeinOpenInterest = changeinOpenInterest l,
     e_impliedVolatility = impliedVolatility l, e_totalTradedVolume = totalTradedVolume l\<rparr>"

definition essential_row :: "OptionChainRow \<Rightarrow> EssentialRow" where
  "essential_row item = \<lparr>e_strikePrice = strikePrice item, e_expiryDate = expiryDates item,
     e_CE = map_option essential_leg (CE item), e_PE = map_option essential_leg (PE item)\<rparr>"

text \<open>
  \<^verbatim>\<open>uniqueStrikes.reduce((prev, curr) => Math.abs(curr - underlying) <
  Math.abs(prev - underlying) ? curr : prev)\<close>: without an initial value the first element
  starts the reduction, and an empty array throws a TypeError.
\<close>

definition nearest_strike :: "real \<Rightarrow> real list \<Rightarrow> error + real" where
  "nearest_strike u uniqueStrikes =
     (case uniqueStrikes of
        [] \<Rightarrow> Inl TypeError
      | s # rest \<Rightarrow>
          Inr (foldl (\<lambda>prev curr. if \<bar>curr - u\<bar> < \<bar>prev - u\<bar> then curr else prev) s rest))"

text \<open>
  \<^verbatim>\<open>getFilteredOptionChainV3(symbol, expiry, strikeRange)\<close> as a function of the
  payload fetched by \<^verbatim>\<open>getOptionChainV3\<close>.
\<close>

definition getFilteredOptionChainV3 :: "OptionChainResponse \<Rightarrow> real \<Rightarrow> error + FilteredChain" where
  "getFilteredOptionChainV3 fullData strikeRange =
     (let u = records_underlyingValue fullData;
          strikes = map strikePrice (records_data fullData);
          uniqueStrikes = new_Set strikes
      in case nearest_strike u uniqueStrikes of
           Inl e \<Rightarrow> Inl e
         | Inr atmS \<Rightarrow>
             (let sortedStrikes = js_sort_by (\<lambda>a. a) uniqueStrikes;
                  strikeInterval = (if length sortedStrikes > 1
                                    then sortedStrikes ! 1 - sortedStrikes ! 0 else 50);
                  lo = atmS - strikeRange * strikeInterval;
                  hi = atmS + strikeRange * strikeInterval;
                  filteredData = filter (\<lambda>item. strikePrice item \<ge> lo \<and> strikePrice item \<le> hi)
                                   (records_data fullData);
                  essentialData = map essential_row filteredData
              in Inr \<lparr>f_underlyingValue = u, atmStrike = atmS,
                   f_timestamp = records_timestamp fullData,
                   minStrike = lo, maxStrike = hi,
                   totalStrikes = length essentialData, f_data = essentialData\<rparr>))"

text \<open>Payloads whose total call open interest is zero, and a payload with no row.\<close>

definition zero_coi_chain_v3 :: OptionChainResponse where
  "zero_coi_chain_v3 = response 100
     [v3_row ''26-Sep-2025'' 100 0 5, v3_row ''26-Sep-2025'' 150 0 7] []"

definition zero_coi_chain_legacy :: OptionChainResponse where
  "zero_coi_chain_legacy = response 100
     [legacy_row ''26-Sep-2025'' 100 0 5, legacy_row ''26-Sep-2025'' 150 0 7]
     [legacy_row ''26-Sep-2025'' 100 0 5, legacy_row ''26-Sep-2025'' 150 0 7]"

definition zero_oi_chain_legacy :: OptionChainResponse where
  "zero_oi_chain_legacy = response 100
     [legacy_row ''26-Sep-2025'' 100 0 0, legacy_row ''26-Sep-2025'' 150 0 0]
     [legacy_row ''26-Sep-2025'' 100 0 0, legacy_row ''26-Sep-2025'' 150 0 0]"

text \<open>
  Strikes 100, 110, 120 with the underlying at 126: off the grid of the strikes.
\<close>

definition off_grid_chain_v3 :: OptionChainResponse where
  "off_grid_chain_v3 = response 126
     [v3_row ''26-Sep-2025'' 100 10 0, v3_row ''26-Sep-2025'' 110 5 5,
      v3_row ''26-Sep-2025'' 120 0 15] []"

section \<open>Splitting a date range\<close>

text \<open>
  A \<^verbatim>\<open>Date\<close> is its time value: milliseconds since the epoch, an integer.
\<close>

type_synonym date = int

definition oneDay :: int where
  "oneDay = 86400000"

text \<open>
  \<^verbatim>\<open>splitDateRange\<close> is imported by the historical API from
  \<^verbatim>\<open>utils/date-formatter.js\<close> and by the tests from \<^verbatim>\<open>bse/utils/helpers.js\<close>;
  neither module is among the sources, so the function and its parts follow the
  specification.  The specification gives no meaning to a quota \<open>chunkDays\<close> below 1.
\<close>

text \<open>
  Modelled from the spec: the day count of \<^verbatim>\<open>splitDateRange\<close> (its module is missing),
  \<open>totalDaysInclusive = floor((to - from) / oneDay) + 1\<close>.
\<close>

definition totalDaysInclusive :: "date \<Rightarrow> date \<Rightarrow> int" where
  "totalDaysInclusive fromDate toDate = (toDate - fromDate) div oneDay + 1"

text \<open>
  Modelled from the spec: the chunk count of \<^verbatim>\<open>splitDateRange\<close> (its module is
  missing), \<open>numChunks = ceil(totalDaysInclusive / chunkDays)\<close>.
\<close>

definition numChunks :: "date \<Rightarrow> date \<Rightarrow> int \<Rightarrow> int" where
  "numChunks fromDate toDate chunkDays =
     \<lceil>real_of_int (totalDaysInclusive fromDate toDate) / real_of_int chunkDays\<rceil>"

text \<open>
  Modelled from the spec: chunk \<open>i\<close> of \<^verbatim>\<open>splitDateRange\<close> (its module is missing)
  starts at \<open>from + i * chunkDays\<close> days and ends at
  \<open>min(from + (i + 1) * chunkDays - 1 days, to)\<close>.
\<close>

definition chunk_at :: "date \<Rightarrow> date \<Rightarrow> int \<Rightarrow> nat \<Rightarrow> date \<times> date" where
  "chunk_at fromDate toDate chunkDays i =
     (fromDate + int i * chunkDays * oneDay,
      min (fromDate + (int (i + 1) * chunkDays - 1) * oneDay) toDate)"

text \<open>
  Modelled from the spec: \<^verbatim>\<open>splitDateRange(from, to, chunkDays)\<close> (its module is
  missing) fails with InvalidRangeError unless \<open>from <= to\<close>, and returns the chunks
  \<open>0, ..., numChunks - 1\<close> otherwise.
\<close>

definition splitDateRange :: "date \<Rightarrow> date \<Rightarrow> int \<Rightarrow> error + (date \<times> date) list" where
  "splitDateRange fromDate toDate chunkDays =
     (if toDate < fromDate then Inl InvalidRangeError
      else Inr (map (chunk_at fromDate toDate chunkDays)
                  [0..<nat (numChunks fromDate toDate chunkDays)]))"

section \<open>The symbol parser\<close>

text \<open>
  Strings are lists of characters.  \<^verbatim>\<open>trim\<close> removes white space at both ends; the
  ASCII white space characters are modelled (tab, line feed, vertical tab, form feed,
  carriage return, space).
\<close>

definition is_whitespace :: "char \<Rightarrow> bool" where
  "is_whitespace c \<longleftrightarrow> c \<in> {CHR 0x09, CHR 0x0A, CHR 0x0B, CHR 0x0C, CHR 0x0D, CHR '' ''}"

definition trim :: "string \<Rightarrow> string" where
  "trim s = rev (dropWhile is_whitespace (rev (dropWhile is_whitespace s)))"

text \<open>
  \<^verbatim>\<open>data.split(' ')\<close>: the pieces between the space characters, empty pieces included;
  \<open>cur\<close> is the piece being read.
\<close>

fun split_from :: "string \<Rightarrow> string \<Rightarrow> string list" where
  "split_from cur [] = [cur]"
| "split_from cur (c # cs) =
     (if c = CHR '' '' then cur # split_from [] cs else split_from (cur @ [c]) cs)"

definition split_space :: "string \<Rightarrow> string list" where
  "split_space data = split_from [] data"

text \<open>\<^verbatim>\<open>data.split(' ').filter(part => part.trim() !== '')\<close>.\<close>

definition parts_of :: "string \<Rightarrow> string list" where
  "parts_of data = filter (\<lambda>part. trim part \<noteq> []) (split_space data)"

datatype Field = CompanyName | Symbol | Isin | BseCode

text \<open>\<^verbatim>\<open>Partial<LookupResult>\<close>: a field that is not in the object is \<open>None\<close>.\<close>

record LookupResult =
  company_name :: "string option"
  symbol :: "string option"
  isin :: "string option"
  bse_code :: "string option"

fun get_field :: "Field \<Rightarrow> LookupResult \<Rightarrow> string option" where
  "get_field CompanyName r = company_name r"
| "get_field Symbol r = symbol r"
| "get_field Isin r = isin r"
| "get_field BseCode r = bse_code r"

fun set_field :: "Field \<Rightarrow> string \<Rightarrow> LookupResult \<Rightarrow> LookupResult" where
  "set_field CompanyName v r = r\<lparr>company_name := Some v\<rparr>"
| "set_field Symbol v r = r\<lparr>symbol := Some v\<rparr>"
| "set_field Isin v r = r\<lparr>isin := Some v\<rparr>"
| "set_field BseCode v r = r\<lparr>bse_code := Some v\<rparr>"

text \<open>\<^verbatim>\<open>this.fields\<close>: the fixed order of the fields.\<close>

definition field_order :: "Field list" where
  "field_order = [CompanyName, Symbol, Isin, BseCode]"

definition empty_result :: LookupResult where
  "empty_result = \<lparr>company_name = None, symbol = None, isin = None, bse_code = None\<rparr>"

record SymbolParser =
  result :: LookupResult
  start :: bool
  index :: nat

definition new_SymbolParser :: SymbolParser where
  "new_SymbolParser = \<lparr>result = empty_result, start = False, index = 0\<rparr>"

definition resetData :: "SymbolParser \<Rightarrow> SymbolParser" where
  "resetData p = p\<lparr>result := empty_result, start := False, index := 0\<rparr>"

text \<open>
  \<^verbatim>\<open>getResult\<close>: \<^verbatim>\<open>!this.result.symbol\<close> holds when the field is missing and when it
  is the empty string.
\<close>

definition getResult :: "SymbolParser \<Rightarrow> LookupResult option" where
  "getResult p =
     (case symbol (result p) of
        None \<Rightarrow> None
      | Some s \<Rightarrow> if s = [] then None else Some (result p))"

text \<open>
  \<^verbatim>\<open>handleData(data)\<close>.  The recursive calls run over the parts of a fragment that
  holds a space; no part holds one, so each is shorter than the fragment.
\<close>

function handleData :: "SymbolParser \<Rightarrow> string \<Rightarrow> SymbolParser" where
  "handleData p data =
     (if \<not> start p \<or> index p \<ge> length field_order then p
      else if get_field (field_order ! index p) (result p) \<noteq> None then p
      else if company_name (result p) \<noteq> None \<and> CHR '' '' \<in> set data
           then foldl handleData p (parts_of data)
      else p\<lparr>result := set_field (field_order ! index p) (trim data) (result p),
             index := index p + 1\<rparr>)"
  by pat_completeness auto
termination
proof (relation "measure (\<lambda>(p, data). length data)")
  show "wf (measure (\<lambda>(p, data). length data))" by simp
next
  fix p :: SymbolParser and data x :: string and a :: SymbolParser
  assume sp: "company_name (result p) \<noteq> None \<and> CHR '' '' \<in> set data"
    and x: "x \<in> set (parts_of data)"
  have le: "part \<in> set (split_from cur s) \<Longrightarrow> length part \<le> length cur + length s"
    for part cur s
  proof (induction s arbitrary: cur)
    case Nil
    then show ?case by simp
  next
    case (Cons c cs)
    show ?case
    proof (cases "c = CHR '' ''")
      case True
      with Cons.prems have "part = cur \<or> part \<in> set (split_from [] cs)" by simp
      with Cons.IH[of "[]"] show ?thesis by auto
    next
      case False
      with Cons.prems have "part \<in> set (split_from (cur @ [c]) cs)" by simp
      from Cons.IH[OF this] show ?thesis by simp
    qed
  qed
  have lt: "part \<in> set (split_from cur s) \<Longrightarrow> CHR '' '' \<in> set s
            \<Longrightarrow> length part < length cur + length s" for part cur s
  proof (induction s arbitrary: cur)
    case Nil
    then show ?case by simp
  next
    case (Cons c cs)
    show ?case
    proof (cases "c = CHR '' ''")
      case True
      with Cons.prems(1) le[of part "[]" cs] show ?thesis by auto
    next
      case False
      with Cons.prems Cons.IH[of "cur @ [c]"] show ?thesis by auto
    qed
  qed
  from x have "x \<in> set (split_from [] data)" by (simp add: parts_of_def split_space_def)
  with sp lt[of x "[]" data] have "length x < length data" by simp
  then show "((a, x), (p, data)) \<in> measure (\<lambda>(p, data). length data)" by simp
qed

declare handleData.simps [simp del]

text \<open>
  \<^verbatim>\<open>feed(htmlString)\<close>, as a function of the texts of the anchors that the HTML parser
  finds in the string, in document order.
\<close>

definition feed :: "SymbolParser \<Rightarrow> string list \<Rightarrow> SymbolParser" where
  "feed p anchors =
     (if anchors = [] then p
      else foldl (\<lambda>q anchor. let textContent = trim anchor
                              in if textContent \<noteq> [] then handleData q textContent else q)
             (p\<lparr>start := True, index := 0\<rparr>) anchors)"

text \<open>The public methods that change a parser, and a parser after a sequence of calls.\<close>

datatype parser_call = Feed "string list" | ResetData

fun do_call :: "SymbolParser \<Rightarrow> parser_call \<Rightarrow> SymbolParser" where
  "do_call p (Feed anchors) = feed p anchors"
| "do_call p ResetData = resetData p"

definition parser_after :: "parser_call list \<Rightarrow> SymbolParser" where
  "parser_after calls = foldl do_call new_SymbolParser calls"

text \<open>
  The specification's sub-tokens, read as written: the fragment split on white space,
  that is, its maximal runs of characters that are not white space.
\<close>

fun tokens_from :: "string \<Rightarrow> string \<Rightarrow> string list" where
  "tokens_from cur [] = (if cur = [] then [] else [cur])"
| "tokens_from cur (c # cs) =
     (if is_whitespace c
      then (if cur = [] then tokens_from [] cs else cur # tokens_from [] cs)
      else tokens_from (cur @ [c]) cs)"

definition spec_tokens :: "string \<Rightarrow> string list" where
  "spec_tokens data = tokens_from [] data"

text \<open>A string with a character that is not white space, and a parser none of whose
  fields holds the empty string.\<close>

definition nonblank :: "string \<Rightarrow> bool" where
  "nonblank s \<longleftrightarrow> (\<exists>c\<in>set s. \<not> is_whitespace c)"

definition no_empty_field :: "SymbolParser \<Rightarrow> bool" where
  "no_empty_field p \<longleftrightarrow> (\<forall>f. get_field f (result p) \<noteq> Some [])"

text \<open>The record of the specification's example, and a fragment with a tab in it.\<close>

definition hdfc_record :: LookupResult where
  "hdfc_record = \<lparr>company_name = Some ''HDFC Bank Ltd'', symbol = Some ''HDFCBANK'',
     isin = Some ''INE040A01034'', bse_code = Some ''500180''\<rparr>"

definition tab_fragment :: string where
  "tab_fragment = ''HDFCBANK'' @ CHR 0x09 # ''INE040A01034''"

section \<open>The throttle\<close>










section \<open>Gainers and losers: results\<close>

text \<open>
  C5 (as stated): on the rows A, B, C, D with pChange -1, 2, 5, 3 the losers operation with
  count 2 would return C, A.  It does not: only A has a negative pChange.
\<close>

theorem C5_losers_counterexample:
  "map mkt_symbol (getLosers spec_rows (Some 2)) \<noteq> [''C'', ''A'']"
  by (simp add: getLosers_def spec_rows_def js_sort_by_def js_slice0_def)

text \<open>
  C5 (amended): on the rows A, B, C, D with pChange -1, 2, 5, 3 the gainers operation with
  count 2 returns C, D (positive rows, descending) and the losers operation with count 2
  returns A alone; on the rows with pChange -1, 2, -5, 3 the losers operation with count 2
  returns C, A (negative rows, most negative first).
\<close>

theorem C5_gainers_losers:
  "map mkt_symbol (getGainers spec_rows (Some 2)) = [''C'', ''D'']
   \<and> map mkt_symbol (getLosers spec_rows (Some 2)) = [''A'']
   \<and> map mkt_symbol (getLosers test_loser_rows (Some 2)) = [''C'', ''A'']"
  by (simp add: getGainers_def getLosers_def spec_rows_def test_loser_rows_def
      js_sort_by_def js_slice0_def)

section \<open>Max pain: the loops and the sort\<close>

lemma foldl_skip:
  "(\<forall>x\<in>set xs. \<not> P x) \<Longrightarrow> foldl (\<lambda>a x. if P x then g a x else a) acc xs = acc"
  by (induction xs arbitrary: acc) auto

lemma build_painMap_none:
  "(\<forall>x\<in>set rows. \<not> matches x) \<Longrightarrow> build_painMap matches rows = []"
  unfolding build_painMap_def by (rule foldl_skip)

lemma sorted_by_pain_none:
  "(\<forall>x\<in>set rows. \<not> matches x) \<Longrightarrow> sorted_by_pain matches rows = []"
  by (simp add: sorted_by_pain_def build_painMap_none object_keys_def js_sort_by_def)

lemma foldl_pain_sum:
  "foldl (\<lambda>pain y. if P y then pain_step K pain y else pain) a rows
   = a + (\<Sum>y\<leftarrow>filter P rows. if K > strikePrice y then - (K - strikePrice y) * callOI y else 0)
       + (\<Sum>y\<leftarrow>filter P rows. if K < strikePrice y then (K - strikePrice y) * putOI y else 0)"
  by (induction rows arbitrary: a)
     (auto simp: pain_step_def callOI_def putOI_def Let_def split: option.splits)

lemma pain_of_spec: "pain_of matches rows K = spec_pain matches rows K"
  by (simp add: pain_of_def spec_pain_def foldl_pain_sum)

lemma map_fst_pm_put:
  "map fst (pm_put k v pm) = (if k \<in> set (map fst pm) then map fst pm else map fst pm @ [k])"
  by (auto simp: pm_put_def map_of_eq_None_iff comp_def case_prod_beta intro!: map_idI) 

lemma keys_foldl:
  "map fst (foldl (\<lambda>pm x. if P x then pm_put (strikePrice x) (F (strikePrice x)) pm else pm) acc xs)
   = foldl (\<lambda>acc x. if x \<in> set acc then acc else acc @ [x]) (map fst acc) (map strikePrice (filter P xs))"
  by (induction xs arbitrary: acc) (simp_all add: map_fst_pm_put)

lemma keys_build_painMap:
  "map fst (build_painMap matches rows) = new_Set (map strikePrice (filter matches rows))"
  unfolding build_painMap_def new_Set_def by (simp add: keys_foldl)

lemma pm_put_vals:
  "(\<forall>(k', v')\<in>set pm. v' = F k') \<Longrightarrow> (\<forall>(k', v')\<in>set (pm_put k (F k) pm). v' = F k')"
  by (auto simp: pm_put_def split: if_splits)

lemma vals_foldl:
  "(\<forall>(k', v')\<in>set acc. v' = F k') \<Longrightarrow>
   (\<forall>(k', v')\<in>set (foldl (\<lambda>pm x. if P x then pm_put (strikePrice x) (F (strikePrice x)) pm else pm) acc xs). v' = F k')"
proof (induction xs arbitrary: acc)
  case Nil then show ?case by simp
next
  case (Cons x xs)
  show ?case
  proof (cases "P x")
    case True
    have "\<forall>(k', v')\<in>set (pm_put (strikePrice x) (F (strikePrice x)) acc). v' = F k'"
      using Cons.prems by (rule pm_put_vals)
    from Cons.IH[OF this] True show ?thesis by simp
  next
    case False
    with Cons.IH[OF Cons.prems] show ?thesis by simp
  qed
qed

lemma pm_get_build:
  assumes "k \<in> set (map fst (build_painMap matches rows))"
  shows "pm_get (build_painMap matches rows) k = spec_pain matches rows k"
proof -
  have inv: "\<forall>(k', v')\<in>set (build_painMap matches rows). v' = pain_of matches rows k'"
    unfolding build_painMap_def by (rule vals_foldl) simp
  from assms obtain v where v: "map_of (build_painMap matches rows) k = Some v"
    by (metis map_of_eq_None_iff not_None_eq set_map)
  then have "(k, v) \<in> set (build_painMap matches rows)" by (rule map_of_SomeD)
  with inv have "v = pain_of matches rows k" by auto
  with v show ?thesis by (simp add: pm_get_def pain_of_spec)
qed

lemma object_keys_build:
  "object_keys (build_painMap matches rows) = maxpain_candidates matches rows"
  by (simp add: object_keys_def maxpain_candidates_def keys_build_painMap)

lemma set_object_keys: "set (object_keys pm) = set (map fst pm)"
  unfolding object_keys_def Let_def by auto

lemma find_filter_hd:
  "List.find P xs = (case filter P xs of [] \<Rightarrow> None | x # _ \<Rightarrow> Some x)"
  by (induction xs) auto

lemma sorted_hd_min:
  "sorted (map f (h # t)) \<Longrightarrow> y \<in> set (h # t) \<Longrightarrow> f h \<le> f y"
  by auto

lemma hd_sort_key_find:
  assumes "xs \<noteq> []"
  shows "List.find (\<lambda>x. \<forall>y\<in>set xs. f x \<le> f y) xs = Some (hd (sort_key f xs))"
proof -
  have "sort_key f xs \<noteq> []" using assms by (cases xs) (auto simp: insort_is_Cons)
  then obtain h t where t: "sort_key f xs = h # t" by (cases "sort_key f xs") auto
  have srt: "sorted (map f (h # t))" using sorted_sort_key[of f xs] by (simp only: t)
  have hin: "h \<in> set xs" using set_sort[of f xs] by (simp only: t) auto
  have hmin: "f h \<le> f y" if "y \<in> set xs" for y
  proof -
    from that have "y \<in> set (h # t)" using set_sort[of f xs] by (simp only: t)
    with srt show ?thesis by (rule sorted_hd_min)
  qed
  have "filter (\<lambda>y. f y = f h) (sort_key f xs) = filter (\<lambda>y. f y = f h) xs"
    by (rule sort_key_stable)
  then have fhd: "filter (\<lambda>y. f y = f h) xs = h # filter (\<lambda>y. f y = f h) t"
    by (simp add: t)
  have eqP: "(\<forall>y\<in>set xs. f x \<le> f y) \<longleftrightarrow> f x = f h" if "x \<in> set xs" for x
  proof
    assume a: "\<forall>y\<in>set xs. f x \<le> f y"
    with hin have "f x \<le> f h" by blast
    moreover have "f h \<le> f x" using that by (rule hmin)
    ultimately show "f x = f h" by simp
  next
    assume "f x = f h"
    then show "\<forall>y\<in>set xs. f x \<le> f y" using hmin by simp
  qed
  have "filter (\<lambda>x. \<forall>y\<in>set xs. f x \<le> f y) xs = filter (\<lambda>x. f x = f h) xs"
    by (rule filter_cong) (simp_all add: eqP)
  then show ?thesis by (simp add: find_filter_hd fhd t)
qed


lemma set_foldl_add:
  "set (foldl (\<lambda>acc x. if x \<in> set acc then acc else acc @ [x]) acc xs) = set acc \<union> set xs"
  by (induction xs arbitrary: acc) auto

lemma distinct_foldl_add:
  "distinct acc \<Longrightarrow> distinct (foldl (\<lambda>acc x. if x \<in> set acc then acc else acc @ [x]) acc xs)"
  by (induction xs arbitrary: acc) auto

lemma set_new_Set: "set (new_Set xs) = set xs"
  by (simp add: new_Set_def set_foldl_add)

lemma distinct_new_Set: "distinct (new_Set xs)"
  by (simp add: new_Set_def distinct_foldl_add)

lemma set_maxpain_candidates:
  "set (maxpain_candidates matches rows) = strikePrice ` {x \<in> set rows. matches x}"
  unfolding maxpain_candidates_def Let_def by (auto simp: set_new_Set)

lemma first_max_pain_sorted:
  assumes "\<exists>x\<in>set rows. matches x"
  shows "first_max_pain matches rows = Some (first_or_zero (sorted_by_pain matches rows))"
proof -
  let ?pm = "build_painMap matches rows"
  let ?c = "maxpain_candidates matches rows"
  let ?f = "\<lambda>a. - pm_get ?pm a"
  have c: "object_keys ?pm = ?c" by (rule object_keys_build)
  have ne: "?c \<noteq> []" using assms set_maxpain_candidates[of matches rows] by auto
  have val: "pm_get ?pm k = spec_pain matches rows k" if "k \<in> set ?c" for k
    using that pm_get_build[of k matches rows] set_object_keys[of ?pm] by (simp add: c)
  have "filter (\<lambda>k. \<forall>k'\<in>set ?c. spec_pain matches rows k' \<le> spec_pain matches rows k) ?c
        = filter (\<lambda>k. \<forall>k'\<in>set ?c. ?f k \<le> ?f k') ?c"
    by (rule filter_cong) (simp_all add: val)
  then have "first_max_pain matches rows = List.find (\<lambda>k. \<forall>k'\<in>set ?c. ?f k \<le> ?f k') ?c"
    by (simp add: first_max_pain_def Let_def find_filter_hd)
  also have "\<dots> = Some (hd (sort_key ?f ?c))" using ne by (rule hd_sort_key_find)
  finally have 1: "first_max_pain matches rows = Some (hd (sort_key ?f ?c))" .
  have s: "sorted_by_pain matches rows = sort_key ?f ?c"
    by (simp add: sorted_by_pain_def Let_def c js_sort_by_def)
  have "sort_key ?f ?c \<noteq> []" using ne by (cases ?c) (auto simp: insort_is_Cons)
  then have "first_or_zero (sort_key ?f ?c) = hd (sort_key ?f ?c)"
    by (cases "sort_key ?f ?c") (auto simp: first_or_zero_def)
  with 1 s show ?thesis by simp
qed

section \<open>Max pain: results\<close>

lemmas example_chain_defs = spec_chain_v3_def spec_chain_legacy_def descending_chain_v3_def
  response_def v3_row_def legacy_row_def oi_leg_def

lemmas max_pain_defs = sorted_by_pain_def build_painMap_def pm_put_def pm_get_def
  pain_of_def pain_step_def object_keys_def is_array_index_def js_sort_by_def first_or_zero_def

lemma maxPainV3_spec_chain: "calculateMaxPainV3 spec_chain_v3 ''26-Sep-2025'' = 110"
  by (simp add: calculateMaxPainV3_def example_chain_defs max_pain_defs)

lemma maxPain_spec_chain:
  "calculateMaxPain (\<lambda>_. ''26-Sep-2025'') spec_chain_legacy () = 110"
  by (simp add: calculateMaxPain_def itemExpiry_def example_chain_defs max_pain_defs)

lemma maxPainV3_descending_chain:
  "calculateMaxPainV3 descending_chain_v3 ''26-Sep-2025'' = 110"
  by (simp add: calculateMaxPainV3_def example_chain_defs max_pain_defs)

lemma spec_maxPain_descending_chain:
  "spec_maxPain (\<lambda>x. expiryDates x = Some ''26-Sep-2025'') (records_data descending_chain_v3) = 120"
  by (simp add: spec_maxPain_def spec_pain_def callOI_def putOI_def new_Set_def
      example_chain_defs js_sort_by_def first_or_zero_def)

text \<open>
  C3 (as stated): ties are broken by a stable descending-pain sort of the strikes in the
  order of the input.  With the rows listed 120, 110, 100 the strikes 110 and 120 tie at
  pain -250; the input order puts 120 first, but the code returns 110, because the keys
  of \<^verbatim>\<open>painMap\<close> are enumerated in ascending numeric order before they are sorted.
\<close>

theorem C3_tie_break_counterexample:
  "calculateMaxPainV3 descending_chain_v3 ''26-Sep-2025''
   \<noteq> spec_maxPain (\<lambda>x. expiryDates x = Some ''26-Sep-2025'') (records_data descending_chain_v3)"
  by (simp add: maxPainV3_descending_chain spec_maxPain_descending_chain)

text \<open>
  C3 (amended): when some row has the target expiry, \<^verbatim>\<open>calculateMaxPainV3\<close> and the
  dual-schema \<^verbatim>\<open>calculateMaxPain\<close> restrict to the rows of that expiry and return a
  strike \<open>K\<close> of those rows that maximises the specification's \<open>pain(K)\<close>; among the
  strikes of maximal pain it is the first in the enumeration order of the keys of
  \<^verbatim>\<open>painMap\<close> (integer strikes from 0 to \<open>2^32 - 2\<close> ascending, then the other strikes
  in the order of their first row), not in the order of the input.  For strikes
  100/110/120 with call open interest 10/5/0 and put open interest 0/5/15 the result
  is 110.
\<close>

theorem C3_max_pain:
  "((\<exists>x\<in>set (records_data oc). expiryDates x = Some expiry) \<longrightarrow>
      first_max_pain (\<lambda>x. expiryDates x = Some expiry) (records_data oc)
        = Some (calculateMaxPainV3 oc expiry))
   \<and> ((\<exists>x\<in>set (records_data oc). itemExpiry x = Some (fmt d)) \<longrightarrow>
      first_max_pain (\<lambda>x. itemExpiry x = Some (fmt d)) (records_data oc)
        = Some (calculateMaxPain fmt oc d))
   \<and> calculateMaxPainV3 spec_chain_v3 ''26-Sep-2025'' = 110
   \<and> calculateMaxPain (\<lambda>_. ''26-Sep-2025'') spec_chain_legacy () = 110"
  by (simp add: calculateMaxPainV3_def calculateMaxPain_def first_max_pain_sorted Let_def
      maxPainV3_spec_chain[unfolded calculateMaxPainV3_def]
      maxPain_spec_chain[unfolded calculateMaxPain_def Let_def])

theorem C3_max_pain_witness:
  "first_max_pain (\<lambda>x. expiryDates x = Some ''26-Sep-2025'') (records_data spec_chain_v3)
     = Some 110
   \<and> first_max_pain (\<lambda>x. itemExpiry x = Some ''26-Sep-2025'') (records_data spec_chain_legacy)
     = Some 110"
proof -
  have a: "\<exists>x\<in>set (records_data spec_chain_v3). expiryDates x = Some ''26-Sep-2025''"
    by (simp add: example_chain_defs)
  have b: "\<exists>x\<in>set (records_data spec_chain_legacy). itemExpiry x = Some ''26-Sep-2025''"
    by (simp add: example_chain_defs itemExpiry_def)
  from a b C3_max_pain[of spec_chain_v3 "''26-Sep-2025''" "\<lambda>_. ''26-Sep-2025''" "()"]
    C3_max_pain[of spec_chain_legacy "''26-Sep-2025''" "\<lambda>_. ''26-Sep-2025''" "()"]
  show ?thesis by simp
qed

text \<open>
  C10: when no row of the payload has the target expiry, \<^verbatim>\<open>calculateMaxPainV3\<close> and
  the dual-schema \<^verbatim>\<open>calculateMaxPain\<close> of the same module return 0: the map of pains
  is empty, the sorted list has no first element, and \<^verbatim>\<open>|| 0\<close> supplies the result,
  whatever strikes the payload lists.
\<close>

theorem C10_no_match_zero:
  "((\<forall>x\<in>set (records_data oc). expiryDates x \<noteq> Some expiry) \<longrightarrow>
      calculateMaxPainV3 oc expiry = 0)
   \<and> ((\<forall>x\<in>set (records_data oc). itemExpiry x \<noteq> Some (fmt d)) \<longrightarrow>
      calculateMaxPain fmt oc d = 0)"
  by (simp add: calculateMaxPainV3_def calculateMaxPain_def sorted_by_pain_none
      first_or_zero_def Let_def)

theorem C10_no_match_zero_witness:
  "calculateMaxPainV3 spec_chain_v3 ''03-Oct-2025'' = 0
   \<and> calculateMaxPain (\<lambda>_. ''03-Oct-2025'') spec_chain_legacy () = 0
   \<and> 0 \<notin> strikePrice ` set (records_data spec_chain_v3)"
proof -
  have a: "\<forall>x\<in>set (records_data spec_chain_v3). expiryDates x \<noteq> Some ''03-Oct-2025''"
    by (simp add: example_chain_defs)
  have b: "\<forall>x\<in>set (records_data spec_chain_legacy). itemExpiry x \<noteq> Some ''03-Oct-2025''"
    by (simp add: example_chain_defs itemExpiry_def)
  have c: "0 \<notin> strikePrice ` set (records_data spec_chain_v3)"
    by (simp add: example_chain_defs)
  from a b c C10_no_match_zero[of spec_chain_v3 "''03-Oct-2025''" "\<lambda>_. ''03-Oct-2025''" "()"]
    C10_no_match_zero[of spec_chain_legacy "''03-Oct-2025''" "\<lambda>_. ''03-Oct-2025''" "()"]
  show ?thesis by simp
qed

section \<open>Strike interval and at-the-money strike\<close>

lemma sorted_strikes_props:
  "sorted (sorted_strikes rows) \<and> distinct (sorted_strikes rows)
   \<and> set (sorted_strikes rows) = strikePrice ` set rows"
  using sorted_sort_key[of "\<lambda>a. a" "new_Set (map strikePrice rows)"]
  by (simp add: sorted_strikes_def js_sort_by_def distinct_new_Set set_new_Set)

lemma length_sorted_strikes: "length (sorted_strikes rows) = card (strikePrice ` set rows)"
  using sorted_strikes_props[of rows] distinct_card[of "sorted_strikes rows"] by simp

lemma sorted_strikes_increasing:
  assumes "length (sorted_strikes rows) > 1"
  shows "sorted_strikes rows ! 0 < sorted_strikes rows ! 1"
proof -
  let ?ds = "sorted_strikes rows"
  have "?ds ! 0 \<le> ?ds ! 1" using sorted_strikes_props[of rows] assms
    by (simp add: sorted_iff_nth_mono)
  moreover have "?ds ! 0 \<noteq> ?ds ! 1"
  proof -
    have "distinct ?ds" using sorted_strikes_props[of rows] by simp
    moreover have "?ds \<noteq> []" using assms by auto
    ultimately show ?thesis using assms nth_eq_iff_index_eq[of ?ds 0 1] by auto
  qed
  ultimately show ?thesis by simp
qed

lemma strike_interval_pos: "0 < strike_interval rows"
  using sorted_strikes_increasing[of rows] by (simp add: strike_interval_def Let_def)

lemma strike_interval_card:
  "strike_interval rows =
     (if 2 \<le> card (strikePrice ` set rows) then sorted_strikes rows ! 1 - sorted_strikes rows ! 0
      else 50)"
  using length_sorted_strikes[of rows] by (auto simp: strike_interval_def Let_def)

lemma atm_v3:
  "atm (compileOptionChainV3 data expiry) =
     Num (strike_interval (records_data data) *
          of_int \<lfloor>records_underlyingValue data / strike_interval (records_data data) + 1 / 2\<rfloor>)"
  using strike_interval_pos[of "records_data data"]
  by (simp add: compileOptionChainV3_def Let_def js_div_def js_round_def js_mul_def)

lemma round_nearest_int:
  fixes x :: real
  shows "\<bar>of_int \<lfloor>x + 1 / 2\<rfloor> - x\<bar> \<le> \<bar>of_int k - x\<bar>"
proof -
  let ?r = "\<lfloor>x + 1 / 2\<rfloor>"
  have lo: "of_int ?r \<le> x + 1 / 2" by (rule of_int_floor_le)
  have hi: "x + 1 / 2 < of_int ?r + 1" by (rule floor_correct[THEN conjunct2, simplified])
  show ?thesis
  proof (cases "k \<le> ?r - 1")
    case True
    then have "(of_int k :: real) \<le> of_int ?r - 1" by (metis of_int_le_iff of_int_diff of_int_1)
    with lo hi show ?thesis by linarith
  next
    case False
    show ?thesis
    proof (cases "k = ?r")
      case True then show ?thesis by simp
    next
      case False
      with \<open>\<not> k \<le> ?r - 1\<close> have "?r + 1 \<le> k" by linarith
      then have "(of_int ?r :: real) + 1 \<le> of_int k" by (metis of_int_le_iff of_int_add of_int_1)
      with lo hi show ?thesis by linarith
    qed
  qed
qed

lemma nearest_multiple:
  fixes m u :: real
  assumes "0 < m"
  shows "\<bar>m * of_int \<lfloor>u / m + 1 / 2\<rfloor> - u\<bar> \<le> \<bar>m * of_int k - u\<bar>"
proof -
  have a: "\<bar>m * of_int j - u\<bar> = m * \<bar>of_int j - u / m\<bar>" for j :: int
  proof -
    have "m * of_int j - u = m * (of_int j - u / m)" using assms by (simp add: field_simps)
    then show ?thesis using assms by (simp add: abs_mult)
  qed
  show ?thesis unfolding a using assms round_nearest_int[of "u / m" k]
    by (simp add: mult_le_cancel_left_pos)
qed

lemma foldl_nearest:
  fixes u :: real
  defines "f \<equiv> (\<lambda>prev curr. if \<bar>curr - u\<bar> < \<bar>prev - u\<bar> then curr else prev)"
  shows "foldl f a xs \<in> insert a (set xs) \<and> (\<forall>y\<in>insert a (set xs). \<bar>foldl f a xs - u\<bar> \<le> \<bar>y - u\<bar>)"
proof (induction xs arbitrary: a)
  case Nil then show ?case by simp
next
  case (Cons x xs)
  from Cons.IH[of "f a x"] show ?case by (auto simp: f_def split: if_splits)
qed

lemma nearest_strike_props:
  assumes "us \<noteq> []"
  shows "\<exists>s. nearest_strike u us = Inr s \<and> s \<in> set us \<and> (\<forall>y\<in>set us. \<bar>s - u\<bar> \<le> \<bar>y - u\<bar>)"
proof -
  from assms obtain a xs where us: "us = a # xs" by (cases us) auto
  show ?thesis using foldl_nearest[of u a xs] by (simp add: us nearest_strike_def)
qed

lemma filtered_atm:
  assumes "records_data data \<noteq> []"
  shows "\<exists>fc. getFilteredOptionChainV3 data n = Inr fc
           \<and> atmStrike fc \<in> strikePrice ` set (records_data data)
           \<and> (\<forall>r\<in>set (records_data data).
                 \<bar>atmStrike fc - records_underlyingValue data\<bar>
                   \<le> \<bar>strikePrice r - records_underlyingValue data\<bar>)"
proof -
  let ?us = "new_Set (map strikePrice (records_data data))"
  have "set ?us = strikePrice ` set (records_data data)" by (simp add: set_new_Set)
  moreover from this assms have "?us \<noteq> []" by auto
  from nearest_strike_props[OF this, of "records_underlyingValue data"]
  obtain s where s: "nearest_strike (records_underlyingValue data) ?us = Inr s" "s \<in> set ?us"
     "\<forall>y\<in>set ?us. \<bar>s - records_underlyingValue data\<bar> \<le> \<bar>y - records_underlyingValue data\<bar>"
    by blast
  ultimately show ?thesis by (simp add: getFilteredOptionChainV3_def Let_def)
qed

lemma filtered_empty:
  "records_data data = [] \<Longrightarrow> getFilteredOptionChainV3 data n = Inl TypeError"
  by (simp add: getFilteredOptionChainV3_def Let_def new_Set_def nearest_strike_def)

text \<open>
  C4: in the v3 compiler the strike interval is \<open>strikes[1] - strikes[0]\<close> of the
  ascending, distinct strike prices when the payload lists at least two distinct strikes
  and 50 otherwise; the compiled \<^verbatim>\<open>atm\<close> is the interval times
  \<open>round(underlying / interval)\<close>, and no integer multiple of the interval is nearer to
  the underlying.  The filtered view returns as \<^verbatim>\<open>atmStrike\<close> a listed strike that no
  listed strike beats in distance to the underlying (with no row at all, its reduction
  over an empty array throws).
\<close>

theorem C4_interval_and_atm:
  "sorted (sorted_strikes (records_data data))
   \<and> distinct (sorted_strikes (records_data data))
   \<and> set (sorted_strikes (records_data data)) = strikePrice ` set (records_data data)
   \<and> strike_interval (records_data data) =
       (if 2 \<le> card (strikePrice ` set (records_data data))
        then sorted_strikes (records_data data) ! 1 - sorted_strikes (records_data data) ! 0
        else 50)
   \<and> atm (compileOptionChainV3 data expiry) =
       Num (strike_interval (records_data data) *
            of_int \<lfloor>records_underlyingValue data / strike_interval (records_data data) + 1 / 2\<rfloor>)
   \<and> (\<forall>k::int.
         \<bar>strike_interval (records_data data) *
            of_int \<lfloor>records_underlyingValue data / strike_interval (records_data data) + 1 / 2\<rfloor>
          - records_underlyingValue data\<bar>
         \<le> \<bar>strike_interval (records_data data) * of_int k - records_underlyingValue data\<bar>)
   \<and> (records_data data \<noteq> [] \<longrightarrow>
        (\<exists>fc. getFilteredOptionChainV3 data n = Inr fc
           \<and> atmStrike fc \<in> strikePrice ` set (records_data data)
           \<and> (\<forall>r\<in>set (records_data data).
                 \<bar>atmStrike fc - records_underlyingValue data\<bar>
                   \<le> \<bar>strikePrice r - records_underlyingValue data\<bar>)))
   \<and> (records_data data = [] \<longrightarrow> getFilteredOptionChainV3 data n = Inl TypeError)"
proof -
  note p = sorted_strikes_props[of "records_data data"]
  have near: "\<forall>k::int.
         \<bar>strike_interval (records_data data) *
            of_int \<lfloor>records_underlyingValue data / strike_interval (records_data data) + 1 / 2\<rfloor>
          - records_underlyingValue data\<bar>
         \<le> \<bar>strike_interval (records_data data) * of_int k - records_underlyingValue data\<bar>"
    using nearest_multiple[OF strike_interval_pos] by blast
  have filt: "records_data data \<noteq> [] \<longrightarrow>
        (\<exists>fc. getFilteredOptionChainV3 data n = Inr fc
           \<and> atmStrike fc \<in> strikePrice ` set (records_data data)
           \<and> (\<forall>r\<in>set (records_data data).
                 \<bar>atmStrike fc - records_underlyingValue data\<bar>
                   \<le> \<bar>strikePrice r - records_underlyingValue data\<bar>))"
    using filtered_atm[of data n] by blast
  have emp: "records_data data = [] \<longrightarrow> getFilteredOptionChainV3 data n = Inl TypeError"
    using filtered_empty[of data n] by blast
  from p strike_interval_card[of "records_data data"] atm_v3[of data expiry] near filt emp
  show ?thesis by blast
qed

theorem C4_interval_and_atm_witness:
  "strike_interval (records_data off_grid_chain_v3) = 10
   \<and> atm (compileOptionChainV3 off_grid_chain_v3 ''26-Sep-2025'') = Num 130
   \<and> getFilteredOptionChainV3 off_grid_chain_v3 0 =
       Inr \<lparr>f_underlyingValue = 126, atmStrike = 120, f_timestamp = ''26-Sep-2025 15:30:00'',
            minStrike = 120, maxStrike = 120, totalStrikes = 1,
            f_data = [essential_row (v3_row ''26-Sep-2025'' 120 0 15)]\<rparr>"
proof -
  have ds: "sorted_strikes (records_data off_grid_chain_v3) = [100, 110, 120]"
    by (simp add: off_grid_chain_v3_def example_chain_defs sorted_strikes_def new_Set_def
        js_sort_by_def)
  have card3: "card (strikePrice ` set (records_data off_grid_chain_v3)) = 3"
    by (simp add: off_grid_chain_v3_def example_chain_defs)
  have u: "records_underlyingValue off_grid_chain_v3 = 126"
    by (simp add: off_grid_chain_v3_def example_chain_defs)
  have f: "getFilteredOptionChainV3 off_grid_chain_v3 0 =
       Inr \<lparr>f_underlyingValue = 126, atmStrike = 120, f_timestamp = ''26-Sep-2025 15:30:00'',
            minStrike = 120, maxStrike = 120, totalStrikes = 1,
            f_data = [essential_row (v3_row ''26-Sep-2025'' 120 0 15)]\<rparr>"
    by (simp add: getFilteredOptionChainV3_def nearest_strike_def off_grid_chain_v3_def
        response_def v3_row_def new_Set_def js_sort_by_def Let_def)
  from C4_interval_and_atm[of off_grid_chain_v3 "''26-Sep-2025''" 0] ds card3 u f
  show ?thesis by simp
qed

section \<open>Put-call ratios\<close>

lemmas compile_defs = compile_step_def init_state_def chain_leg_def zero_leg_def js_div_def
  toFixed2_def round2_def js_mul_def js_round_def strike_interval_def sorted_strikes_def
  new_Set_def js_sort_by_def

text \<open>
  Both compilers guard the per-strike ratio: the entry written for a row holds \<^verbatim>\<open>null\<close>
  when either open interest is zero, and the rounded quotient otherwise.
\<close>

lemma compile_step_pcr:
  "map_option entry_pcr (st_chain (compile_step sel st idx) (strikePrice idx)) =
     Some (if putOI idx = 0 \<or> callOI idx = 0 then None
           else Some (Num (round2 (putOI idx / callOI idx))))"
  by (simp add: compile_step_def Let_def putOI_def callOI_def js_div_def toFixed2_def
      split: option.splits)

text \<open>The v3 compiler guards the chain-level ratio.\<close>

lemma pcr_v3:
  "pcr (compileOptionChainV3 data expiry) =
     (if coiTotal (compileOptionChainV3 data expiry) > 0
      then Num (round2 (poiTotal (compileOptionChainV3 data expiry)
                        / coiTotal (compileOptionChainV3 data expiry)))
      else Num 0)"
  by (simp add: compileOptionChainV3_def Let_def js_div_def toFixed2_def)

text \<open>The legacy compiler does not: a zero total gives NaN or an infinity.\<close>

lemma pcr_legacy:
  assumes "compileOptionChain fmt data d = Inr oc"
  shows "pcr oc = (if coiTotal oc = 0
                   then (if poiTotal oc = 0 then NaN else if poiTotal oc > 0 then PosInf else NegInf)
                   else Num (round2 (poiTotal oc / coiTotal oc)))"
  using assms
  by (auto simp: compileOptionChain_def Let_def js_div_def toFixed2_def split: list.splits)

text \<open>
  C1 (the code at the failing input): for a legacy payload whose rows of the expiry have
  call open interest 0 and put open interest 5 and 7, the legacy \<^verbatim>\<open>compileOptionChain\<close>
  returns \<^verbatim>\<open>coiTotal\<close> 0 and \<^verbatim>\<open>pcr\<close> Infinity, and NaN when the put open interest
  is 0 as well; on the same rows in the v3 schema \<^verbatim>\<open>compileOptionChainV3\<close>, and the
  \<^verbatim>\<open>compileOptionChain\<close> that delegates to it, return \<^verbatim>\<open>pcr\<close> 0.
\<close>

theorem C1_legacy_pcr_unguarded:
  "map_sum id coiTotal (compileOptionChain (\<lambda>_. ''26-Sep-2025'') zero_coi_chain_legacy ()) = Inr 0
   \<and> map_sum id pcr (compileOptionChain (\<lambda>_. ''26-Sep-2025'') zero_coi_chain_legacy ())
       = Inr PosInf
   \<and> map_sum id pcr (compileOptionChain (\<lambda>_. ''26-Sep-2025'') zero_oi_chain_legacy ())
       = Inr NaN
   \<and> coiTotal (compileOptionChainV3 zero_coi_chain_v3 ''26-Sep-2025'') = 0
   \<and> pcr (compileOptionChainV3 zero_coi_chain_v3 ''26-Sep-2025'') = Num 0
   \<and> pcr (compileOptionChain_delegating (\<lambda>_. ''26-Sep-2025'') zero_coi_chain_v3 ()) = Num 0"
  by (simp add: compileOptionChain_def compileOptionChainV3_def compileOptionChain_delegating_def
      compile_defs Let_def zero_coi_chain_legacy_def zero_oi_chain_legacy_def zero_coi_chain_v3_def
      example_chain_defs)

section \<open>Splitting a date range: results\<close>

lemma oneDay_pos: "0 < oneDay" by (simp add: oneDay_def)

lemma numChunks_bounds:
  assumes "0 < c"
  shows "totalDaysInclusive f t \<le> numChunks f t c * c"
    and "(numChunks f t c - 1) * c < totalDaysInclusive f t"
proof -
  let ?T = "totalDaysInclusive f t"
  have n: "numChunks f t c = - ((- ?T) div c)" by (simp add: numChunks_def ceiling_divide_eq_div)
  have e: "(- ?T) div c * c + (- ?T) mod c = - ?T" by (rule div_mult_mod_eq)
  have r: "0 \<le> (- ?T) mod c" "(- ?T) mod c < c" using assms by simp_all
  have m: "numChunks f t c * c = - ((- ?T) div c * c)" by (simp add: n)
  from e r m show "?T \<le> numChunks f t c * c" by linarith
  have "(numChunks f t c - 1) * c = numChunks f t c * c - c" by (simp add: algebra_simps)
  with e r m show "(numChunks f t c - 1) * c < ?T" by linarith
qed

lemma totalDays_pos: "f \<le> t \<Longrightarrow> 1 \<le> totalDaysInclusive f t"
  using oneDay_pos by (simp add: totalDaysInclusive_def pos_imp_zdiv_nonneg_iff)

lemma numChunks_pos:
  assumes "f \<le> t" "0 < c" shows "1 \<le> numChunks f t c"
proof (rule ccontr)
  assume "\<not> 1 \<le> numChunks f t c"
  then have "numChunks f t c \<le> 0" by simp
  then have "numChunks f t c * c \<le> 0" using assms(2) by (simp add: mult_le_0_iff)
  with numChunks_bounds(1)[OF assms(2), of f t] totalDays_pos[OF assms(1)] show False by linarith
qed

lemma split_ok:
  "f \<le> t \<Longrightarrow> splitDateRange f t c = Inr (map (chunk_at f t c) [0..<nat (numChunks f t c)])"
  by (simp add: splitDateRange_def)

lemma days_floor: "(totalDaysInclusive f t - 1) * oneDay \<le> t - f"
  "t - f < totalDaysInclusive f t * oneDay"
proof -
  have e: "(t - f) div oneDay * oneDay + (t - f) mod oneDay = t - f" by (rule div_mult_mod_eq)
  have r: "0 \<le> (t - f) mod oneDay" "(t - f) mod oneDay < oneDay" using oneDay_pos by simp_all
  have "(totalDaysInclusive f t - 1) * oneDay = (t - f) div oneDay * oneDay"
    by (simp add: totalDaysInclusive_def)
  with e r show "(totalDaysInclusive f t - 1) * oneDay \<le> t - f" by linarith
  have "totalDaysInclusive f t * oneDay = (t - f) div oneDay * oneDay + oneDay"
    by (simp add: totalDaysInclusive_def algebra_simps)
  with e r show "t - f < totalDaysInclusive f t * oneDay" by linarith
qed

text \<open>A chunk that is not the last ends before the minimum cuts it.\<close>

lemma inner_chunk_end:
  assumes "0 < c" "int (i + 1) < numChunks f t c"
  shows "snd (chunk_at f t c i) = f + (int (i + 1) * c - 1) * oneDay"
proof -
  have "int (i + 1) \<le> numChunks f t c - 1" using assms(2) by simp
  then have "int (i + 1) * c \<le> (numChunks f t c - 1) * c" using assms(1) by (simp add: mult_right_mono)
  with numChunks_bounds(2)[OF assms(1), of f t] have "int (i + 1) * c - 1 \<le> totalDaysInclusive f t - 1" by linarith
  then have "(int (i + 1) * c - 1) * oneDay \<le> (totalDaysInclusive f t - 1) * oneDay"
    using oneDay_pos by (simp add: mult_right_mono)
  with days_floor(1)[where f=f and t=t] have "f + (int (i + 1) * c - 1) * oneDay \<le> t" by linarith
  then show ?thesis by (simp add: chunk_at_def)
qed

lemma contiguous:
  assumes "0 < c" "int (i + 1) < numChunks f t c"
  shows "fst (chunk_at f t c (i + 1)) = snd (chunk_at f t c i) + oneDay"
  unfolding inner_chunk_end[OF assms] by (simp add: chunk_at_def algebra_simps)

lemma last_chunk_end:
  assumes "0 < c" "f \<le> t"
  shows "snd (chunk_at f t c (nat (numChunks f t c) - 1)) =
      (if c dvd totalDaysInclusive f t then t - (t - f) mod oneDay else t)"
proof -
  let ?N = "numChunks f t c" and ?T = "totalDaysInclusive f t"
  have N1: "1 \<le> ?N" using assms by (simp add: numChunks_pos)
  then have idx: "int (nat ?N - 1 + 1) = ?N" by simp
  have e: "snd (chunk_at f t c (nat ?N - 1)) = min (f + (?N * c - 1) * oneDay) t"
    unfolding chunk_at_def snd_conv idx ..
  have "(?T - 1) * oneDay = (t - f) div oneDay * oneDay"
    by (simp add: totalDaysInclusive_def)
  with div_mult_mod_eq[of "t - f" oneDay]
  have fl: "(?T - 1) * oneDay = t - f - (t - f) mod oneDay" by linarith
  show ?thesis
  proof (cases "c dvd ?T")
    case True
    then obtain k where k: "?T = c * k" by (auto simp: dvd_def)
    have "?N = k" using assms(1) by (simp add: numChunks_def k)
    then have "?N * c = ?T" by (simp add: k)
    then have "f + (?N * c - 1) * oneDay = t - (t - f) mod oneDay" using fl by simp
    moreover have "0 \<le> (t - f) mod oneDay" using oneDay_pos by simp
    ultimately show ?thesis using True e by simp
  next
    case False
    have "?T \<noteq> ?N * c" using False by (metis dvd_triv_right)
    with numChunks_bounds(1)[OF assms(1), of f t] have "?T \<le> ?N * c - 1" by linarith
    then have "?T * oneDay \<le> (?N * c - 1) * oneDay" using oneDay_pos by (simp add: mult_right_mono)
    with days_floor(2)[where f=f and t=t] have "t \<le> f + (?N * c - 1) * oneDay" by linarith
    then show ?thesis using False e by simp
  qed
qed


lemma day_in_chunk:
  assumes c: "0 < c" and j: "0 \<le> j" "j < totalDaysInclusive f t"
  shows "(fst (chunk_at f t c i) \<le> f + j * oneDay \<and> f + j * oneDay \<le> snd (chunk_at f t c i))
         \<longleftrightarrow> int i = j div c"
proof -
  have D: "0 < oneDay" by (rule oneDay_pos)
  have jt: "f + j * oneDay \<le> t"
  proof -
    have "j \<le> totalDaysInclusive f t - 1" using j by simp
    then have "j * oneDay \<le> (totalDaysInclusive f t - 1) * oneDay" using D by (simp add: mult_right_mono)
    with days_floor(1)[where f=f and t=t] show ?thesis by linarith
  qed
  have a: "fst (chunk_at f t c i) \<le> f + j * oneDay \<longleftrightarrow> int i * c \<le> j"
    using D by (simp add: chunk_at_def)
  have b: "f + j * oneDay \<le> snd (chunk_at f t c i) \<longleftrightarrow> j \<le> int (i + 1) * c - 1"
    using D jt by (simp add: chunk_at_def)
  have "(int i * c \<le> j \<and> j \<le> int (i + 1) * c - 1) \<longleftrightarrow> int i = j div c"
  proof
    assume h: "int i * c \<le> j \<and> j \<le> int (i + 1) * c - 1"
    have "int (i + 1) * c = int i * c + c" by (simp add: algebra_simps)
    with h have r: "0 \<le> j - int i * c" "j - int i * c < c" by linarith+
    have "j = c * int i + (j - int i * c)" by simp
    from int_div_pos_eq[OF this r] show "int i = j div c" by simp
  next
    assume h: "int i = j div c"
    have e: "j div c * c + j mod c = j" by (rule div_mult_mod_eq)
    have r: "0 \<le> j mod c" "j mod c < c" using c by simp_all
    have x: "int (i + 1) * c = int i * c + c" by (simp add: algebra_simps)
    have y: "int i * c = j div c * c" using h by simp
    from e r x y show "int i * c \<le> j \<and> j \<le> int (i + 1) * c - 1" by linarith
  qed
  with a b show ?thesis by simp
qed


lemma day_chunk_index:
  assumes c: "0 < c" and j: "0 \<le> j" "j < totalDaysInclusive f t"
  shows "nat (j div c) < nat (numChunks f t c)"
proof -
  have "j div c * c \<le> j" using c div_mult_mod_eq[of j c] pos_mod_sign[of c j] by linarith
  with j numChunks_bounds(1)[OF c, of f t] have "j div c * c < numChunks f t c * c" by linarith
  then have "j div c < numChunks f t c" using c by (simp add: mult_less_cancel_right)
  moreover have "0 \<le> j div c" using c j by (simp add: pos_imp_zdiv_nonneg_iff)
  ultimately show ?thesis by simp
qed

text \<open>
  C2 (amended): for \<open>from <= to\<close> and a quota \<open>chunkDays\<close> of at least 1, the split
  succeeds with \<open>ceil(totalDaysInclusive / chunkDays)\<close> chunks, where \<open>totalDaysInclusive
  = floor((to - from) / oneDay) + 1\<close>; the first chunk starts exactly at \<open>from\<close>; each
  chunk starts one day after its predecessor ends; each of the days \<open>from + j\<close> days,
  \<open>0 <= j < totalDaysInclusive\<close>, lies in exactly one chunk; and the last chunk ends
  exactly at \<open>to\<close> when \<open>to - from\<close> is a whole number of days or \<open>chunkDays\<close> does not
  divide \<open>totalDaysInclusive\<close>, and at \<open>to\<close> less the part of a day by which \<open>to - from\<close>
  exceeds whole days otherwise.
\<close>

theorem C2_chunks:
  assumes "fromDate \<le> toDate" and "0 < chunkDays"
  shows "\<exists>chunks. splitDateRange fromDate toDate chunkDays = Inr chunks
     \<and> int (length chunks)
         = \<lceil>real_of_int (totalDaysInclusive fromDate toDate) / real_of_int chunkDays\<rceil>
     \<and> chunks \<noteq> []
     \<and> fst (chunks ! 0) = fromDate
     \<and> (\<forall>i. i + 1 < length chunks \<longrightarrow> fst (chunks ! (i + 1)) = snd (chunks ! i) + oneDay)
     \<and> snd (last chunks) =
         (if chunkDays dvd totalDaysInclusive fromDate toDate
          then toDate - (toDate - fromDate) mod oneDay else toDate)
     \<and> ((toDate - fromDate) mod oneDay = 0 \<longrightarrow> snd (last chunks) = toDate)
     \<and> (\<forall>j. 0 \<le> j \<and> j < totalDaysInclusive fromDate toDate \<longrightarrow>
           (\<exists>!i. i < length chunks \<and> fst (chunks ! i) \<le> fromDate + j * oneDay
                    \<and> fromDate + j * oneDay \<le> snd (chunks ! i)))"
proof -
  let ?N = "numChunks fromDate toDate chunkDays"
  let ?cs = "map (chunk_at fromDate toDate chunkDays) [0..<nat ?N]"
  have N1: "1 \<le> ?N" using assms by (simp add: numChunks_pos)
  have len: "length ?cs = nat ?N" by simp
  have nth: "?cs ! i = chunk_at fromDate toDate chunkDays i" if "i < nat ?N" for i
    using that by simp
  have 1: "splitDateRange fromDate toDate chunkDays = Inr ?cs" using assms(1) by (rule split_ok)
  have 2: "int (length ?cs)
         = \<lceil>real_of_int (totalDaysInclusive fromDate toDate) / real_of_int chunkDays\<rceil>"
    using N1 by (simp add: numChunks_def)
  have 3: "?cs \<noteq> []" using N1 by simp
  have 4: "fst (?cs ! 0) = fromDate" using N1 by (simp add: nth chunk_at_def)
  have 5: "\<forall>i. i + 1 < length ?cs \<longrightarrow> fst (?cs ! (i + 1)) = snd (?cs ! i) + oneDay"
  proof (intro allI impI)
    fix i assume h: "i + 1 < length ?cs"
    then have "int (i + 1) < ?N" by simp
    from contiguous[OF assms(2) this] h show "fst (?cs ! (i + 1)) = snd (?cs ! i) + oneDay"
      by (simp add: nth)
  qed
  have "last ?cs = ?cs ! (nat ?N - 1)" using 3 by (simp add: last_conv_nth)
  also have "\<dots> = chunk_at fromDate toDate chunkDays (nat ?N - 1)" using N1 by (simp add: nth)
  finally have 6: "snd (last ?cs) =
         (if chunkDays dvd totalDaysInclusive fromDate toDate
          then toDate - (toDate - fromDate) mod oneDay else toDate)"
    using last_chunk_end[OF assms(2) assms(1)] by simp
  then have 7: "(toDate - fromDate) mod oneDay = 0 \<longrightarrow> snd (last ?cs) = toDate" by simp
  have 8: "\<forall>j. 0 \<le> j \<and> j < totalDaysInclusive fromDate toDate \<longrightarrow>
           (\<exists>!i. i < length ?cs \<and> fst (?cs ! i) \<le> fromDate + j * oneDay
                    \<and> fromDate + j * oneDay \<le> snd (?cs ! i))"
  proof (intro allI impI)
    fix j assume j: "0 \<le> j \<and> j < totalDaysInclusive fromDate toDate"
    note dic = day_in_chunk[OF assms(2) conjunct1[OF j] conjunct2[OF j]]
    have nn: "0 \<le> j div chunkDays" using assms(2) j by (simp add: pos_imp_zdiv_nonneg_iff)
    show "\<exists>!i. i < length ?cs \<and> fst (?cs ! i) \<le> fromDate + j * oneDay
                    \<and> fromDate + j * oneDay \<le> snd (?cs ! i)"
    proof (rule ex1I[of _ "nat (j div chunkDays)"])
      have lt: "nat (j div chunkDays) < nat ?N"
        using day_chunk_index[OF assms(2) conjunct1[OF j] conjunct2[OF j]] .
      have "int (nat (j div chunkDays)) = j div chunkDays" using nn by simp
      with dic[of "nat (j div chunkDays)"] lt
      show "nat (j div chunkDays) < length ?cs \<and>
            fst (?cs ! nat (j div chunkDays)) \<le> fromDate + j * oneDay \<and>
            fromDate + j * oneDay \<le> snd (?cs ! nat (j div chunkDays))"
        by (simp add: nth)
    next
      fix i assume h: "i < length ?cs \<and> fst (?cs ! i) \<le> fromDate + j * oneDay
                    \<and> fromDate + j * oneDay \<le> snd (?cs ! i)"
      then have "i < nat ?N" by simp
      with h dic[of i] have "int i = j div chunkDays" by (simp add: nth)
      then show "i = nat (j div chunkDays)" by simp
    qed
  qed
  from 1 2 3 4 5 6 7 8 show ?thesis by blast
qed



text \<open>
  C2 (as stated): the last chunk ends exactly at \<open>to\<close> for every \<open>from <= to\<close>.  From
  2023-01-01T00:00Z to 2023-01-02T12:00Z with a quota of 2 days there are
  \<open>floor(1.5) + 1 = 2\<close> days and one chunk, which ends at \<open>from + 1\<close> day,
  2023-01-02T00:00Z, twelve hours before \<open>to\<close>.
\<close>

theorem C2_last_chunk_counterexample:
  "(1672531200000::int) \<le> 1672660800000
   \<and> splitDateRange 1672531200000 1672660800000 2 = Inr [(1672531200000, 1672617600000)]
   \<and> snd (last [(1672531200000::int, 1672617600000::int)]) \<noteq> 1672660800000"
  by (simp add: splitDateRange_def numChunks_def totalDaysInclusive_def chunk_at_def oneDay_def)

theorem C2_chunks_witness:
  "splitDateRange 1672531200000 1675123200000 10 =
     Inr [(1672531200000, 1673308800000), (1673395200000, 1674172800000),
          (1674259200000, 1675036800000), (1675123200000, 1675123200000)]
   \<and> totalDaysInclusive 1672531200000 1675123200000 = 31
   \<and> fst ((1672531200000::int, 1673308800000::int)) = 1672531200000"
proof -
  have a: "(1672531200000::int) \<le> 1675123200000" by simp
  have b: "(0::int) < 10" by simp
  have s: "splitDateRange 1672531200000 1675123200000 10 =
     Inr [(1672531200000, 1673308800000), (1673395200000, 1674172800000),
          (1674259200000, 1675036800000), (1675123200000, 1675123200000)]"
    by (simp add: splitDateRange_def numChunks_def totalDaysInclusive_def chunk_at_def oneDay_def
        upt_rec)
  have t: "totalDaysInclusive 1672531200000 1675123200000 = 31"
    by (simp add: totalDaysInclusive_def oneDay_def)
  from C2_chunks[OF a b] s t show ?thesis by simp
qed


section \<open>The symbol parser: results\<close>

lemma foldl_fixed: "(\<forall>x\<in>set xs. f p x = p) \<Longrightarrow> foldl f p xs = p"
  by (induction xs) auto

lemma foldl_preserves:
  "Q p \<Longrightarrow> (\<And>a x. x \<in> set xs \<Longrightarrow> Q a \<Longrightarrow> Q (f a x)) \<Longrightarrow> Q (foldl f p xs)"
  by (induction xs arbitrary: p) auto

lemma handleData_split:
  assumes "company_name (result p) \<noteq> None" "CHR '' '' \<in> set data"
  shows "handleData p data = foldl handleData p (parts_of data)"
proof (cases "\<not> start p \<or> index p \<ge> length field_order
              \<or> get_field (field_order ! index p) (result p) \<noteq> None")
  case True
  then have "handleData p x = p" for x by (auto simp: handleData.simps[of p x])
  then have "foldl handleData p (parts_of data) = p" by (simp add: foldl_fixed)
  moreover have "handleData p data = p" using True by (auto simp: handleData.simps[of p data])
  ultimately show ?thesis by simp
next
  case False
  with assms show ?thesis by (simp add: handleData.simps[of p data])
qed

lemma handleData_whole:
  assumes "company_name (result p) = None \<or> CHR '' '' \<notin> set data"
  shows "handleData p data =
     (if \<not> start p \<or> index p \<ge> length field_order
          \<or> get_field (field_order ! index p) (result p) \<noteq> None then p
      else p\<lparr>result := set_field (field_order ! index p) (trim data) (result p),
             index := index p + 1\<rparr>)"
  using assms by (auto simp: handleData.simps[of p data])

lemma in_dropWhile: "x \<in> set xs \<Longrightarrow> \<not> P x \<Longrightarrow> x \<in> set (dropWhile P xs)"
  by (induction xs) auto

lemma trim_nonempty: "trim s \<noteq> [] \<longleftrightarrow> nonblank s"
proof
  assume "trim s \<noteq> []"
  then have "dropWhile is_whitespace (rev (dropWhile is_whitespace s)) \<noteq> []"
    by (simp add: trim_def)
  then obtain c where c: "c \<in> set (rev (dropWhile is_whitespace s))" "\<not> is_whitespace c"
    by (auto simp: dropWhile_eq_Nil_conv)
  from c(1) have "c \<in> set (dropWhile is_whitespace s)" by simp
  then have "c \<in> set s" by (rule set_dropWhileD)
  with c(2) show "nonblank s" by (auto simp: nonblank_def)
next
  assume "nonblank s"
  then obtain c where c: "c \<in> set s" "\<not> is_whitespace c" by (auto simp: nonblank_def)
  then have "c \<in> set (rev (dropWhile is_whitespace s))" by (simp add: in_dropWhile)
  from this c(2) have "c \<in> set (dropWhile is_whitespace (rev (dropWhile is_whitespace s)))"
    by (rule in_dropWhile)
  then have "dropWhile is_whitespace (rev (dropWhile is_whitespace s)) \<noteq> []"
    by (cases "dropWhile is_whitespace (rev (dropWhile is_whitespace s))") simp_all
  then show "trim s \<noteq> []" by (simp add: trim_def)
qed

lemma nonblank_trim: "nonblank s \<Longrightarrow> nonblank (trim s)"
proof -
  assume "nonblank s"
  then obtain c where c: "c \<in> set s" "\<not> is_whitespace c" by (auto simp: nonblank_def)
  then have "c \<in> set (rev (dropWhile is_whitespace s))" by (simp add: in_dropWhile)
  from this c(2) have "c \<in> set (dropWhile is_whitespace (rev (dropWhile is_whitespace s)))"
    by (rule in_dropWhile)
  with c(2) show ?thesis by (auto simp: trim_def nonblank_def)
qed

lemma set_field_nonempty:
  "v \<noteq> [] \<Longrightarrow> (\<forall>f. get_field f r \<noteq> Some []) \<Longrightarrow> get_field g (set_field f' v r) \<noteq> Some []"
  by (cases f'; cases g) (auto dest: spec[of _ CompanyName] spec[of _ Symbol] spec[of _ Isin] spec[of _ BseCode])

lemma handleData_no_empty:
  "nonblank data \<Longrightarrow> no_empty_field p \<Longrightarrow> no_empty_field (handleData p data)"
proof (induction p data rule: handleData.induct)
  case (1 p data)
  show ?case
  proof (cases "\<not> start p \<or> index p \<ge> length field_order
              \<or> get_field (field_order ! index p) (result p) \<noteq> None")
    case True
    then have "handleData p data = p" by (auto simp: handleData.simps[of p data])
    with "1.prems" show ?thesis by simp
  next
    case False
    show ?thesis
    proof (cases "company_name (result p) \<noteq> None \<and> CHR '' '' \<in> set data")
      case True
      have e: "handleData p data = foldl handleData p (parts_of data)"
        using True handleData_split by simp
      have "no_empty_field (foldl handleData p (parts_of data))"
      proof (rule foldl_preserves[where Q = no_empty_field])
        show "no_empty_field p" by (rule "1.prems"(2))
      next
        fix a x assume x: "x \<in> set (parts_of data)" and a: "no_empty_field a"
        from x have "nonblank x" by (simp add: parts_of_def trim_nonempty)
        from "1.IH"[OF _ _ True x this a] False show "no_empty_field (handleData a x)" by simp
      qed
      with e show ?thesis by simp
    next
      case nosplit: False
      have "trim data \<noteq> []" using "1.prems"(1) by (simp add: trim_nonempty)
      with False nosplit "1.prems"(2) show ?thesis
        by (auto simp: handleData.simps[of p data] no_empty_field_def set_field_nonempty)
    qed
  qed
qed

lemma feed_no_empty: "no_empty_field p \<Longrightarrow> no_empty_field (feed p anchors)"
proof (cases "anchors = []")
  case True
  assume "no_empty_field p"
  with True show ?thesis by (simp add: feed_def)
next
  case False
  assume p: "no_empty_field p"
  let ?f = "\<lambda>q anchor. let textContent = trim anchor
                         in if textContent \<noteq> [] then handleData q textContent else q"
  have "no_empty_field (foldl ?f (p\<lparr>start := True, index := 0\<rparr>) anchors)"
  proof (rule foldl_preserves[where Q = no_empty_field])
    show "no_empty_field (p\<lparr>start := True, index := 0\<rparr>)" using p by (simp add: no_empty_field_def)
  next
    fix a x assume a: "no_empty_field a"
    show "no_empty_field (?f a x)"
    proof (cases "trim x = []")
      case True then show ?thesis using a by simp
    next
      case False
      then have "nonblank (trim x)" by (simp add: trim_nonempty nonblank_trim)
      from handleData_no_empty[OF this a] False show ?thesis by simp
    qed
  qed
  with False show ?thesis by (simp add: feed_def)
qed

lemma parser_after_no_empty: "no_empty_field (parser_after calls)"
proof -
  have "no_empty_field (foldl do_call new_SymbolParser calls)"
  proof (rule foldl_preserves[where Q = no_empty_field])
    show "no_empty_field new_SymbolParser"
    proof -
      have "get_field f empty_result = None" for f by (cases f) (simp_all add: empty_result_def)
      then show ?thesis by (simp add: no_empty_field_def new_SymbolParser_def)
    qed
  next
    fix a x assume a: "no_empty_field a"
    show "no_empty_field (do_call a x)"
    proof (cases x)
      case (Feed anchors) with a show ?thesis by (simp add: feed_no_empty)
    next
      case ResetData
      have "get_field f empty_result = None" for f by (cases f) (simp_all add: empty_result_def)
      with ResetData show ?thesis by (simp add: no_empty_field_def resetData_def)
    qed
  qed
  then show ?thesis by (simp add: parser_after_def)
qed

text \<open>
  C8: in every state that the parser reaches through \<^verbatim>\<open>feed\<close> and \<^verbatim>\<open>resetData\<close>,
  \<^verbatim>\<open>getResult\<close> returns the accumulated record exactly when the symbol field has been
  populated, and nothing otherwise; the record is returned as it is, whatever other
  fields are missing.
\<close>

theorem C8_getResult:
  "getResult (parser_after calls) =
     (if symbol (result (parser_after calls)) = None then None
      else Some (result (parser_after calls)))"
proof -
  have "get_field Symbol (result (parser_after calls)) \<noteq> Some []"
    using parser_after_no_empty[of calls] unfolding no_empty_field_def by blast
  then show ?thesis by (auto simp: getResult_def split: option.splits)
qed

lemmas parser_defs = feed_def new_SymbolParser_def empty_result_def field_order_def trim_def
  is_whitespace_def parts_of_def split_space_def

theorem C8_getResult_witness:
  "getResult (parser_after [Feed [''HDFC Bank Ltd'']]) = None
   \<and> getResult (parser_after [Feed [''HDFC Bank Ltd'', ''HDFCBANK'']]) =
       Some \<lparr>company_name = Some ''HDFC Bank Ltd'', symbol = Some ''HDFCBANK'',
             isin = None, bse_code = None\<rparr>
   \<and> getResult (parser_after
        [Feed [''HDFC Bank Ltd'', ''HDFCBANK'', ''INE040A01034'', ''500180''], ResetData]) = None"
proof -
  have a: "result (parser_after [Feed [''HDFC Bank Ltd'']]) =
       \<lparr>company_name = Some ''HDFC Bank Ltd'', symbol = None, isin = None, bse_code = None\<rparr>"
    by (simp add: parser_after_def parser_defs handleData.simps)
  have b: "result (parser_after [Feed [''HDFC Bank Ltd'', ''HDFCBANK'']]) =
       \<lparr>company_name = Some ''HDFC Bank Ltd'', symbol = Some ''HDFCBANK'',
             isin = None, bse_code = None\<rparr>"
    by (simp add: parser_after_def parser_defs handleData.simps)
  have c: "result (parser_after
        [Feed [''HDFC Bank Ltd'', ''HDFCBANK'', ''INE040A01034'', ''500180''], ResetData])
       = empty_result"
    by (simp add: parser_after_def resetData_def)
  from C8_getResult[of "[Feed [''HDFC Bank Ltd'']]"]
    C8_getResult[of "[Feed [''HDFC Bank Ltd'', ''HDFCBANK'']]"]
    C8_getResult[of "[Feed [''HDFC Bank Ltd'', ''HDFCBANK'', ''INE040A01034'', ''500180''],
                      ResetData]"]
  show ?thesis by (simp add: a b c empty_result_def)
qed

lemma feed_separate_fragments:
  "result (feed new_SymbolParser [''HDFC Bank Ltd'', ''HDFCBANK'', ''INE040A01034'', ''500180''])
   = hdfc_record"
  by (simp add: parser_defs handleData.simps hdfc_record_def)

lemma feed_combined_fragment:
  "result (feed new_SymbolParser [''HDFC Bank Ltd'', ''HDFCBANK  INE040A01034'', ''500180''])
   = hdfc_record"
  by (simp add: parser_defs handleData.simps hdfc_record_def)

lemma feed_company_name:
  "feed new_SymbolParser [''HDFC Bank Ltd''] =
     \<lparr>result = \<lparr>company_name = Some ''HDFC Bank Ltd'', symbol = None, isin = None,
                 bse_code = None\<rparr>, start = True, index = 1\<rparr>"
  by (simp add: parser_defs handleData.simps)

text \<open>
  C6 (as stated): a fragment containing white space is split into its sub-tokens once
  the company name is populated.  A fragment whose white space is a tab is not: the
  code looks for the space character only, so the fragment is stored whole as the
  symbol, and the next fragment lands in the ISIN slot.
\<close>

theorem C6_whitespace_counterexample:
  "company_name (result (feed new_SymbolParser [''HDFC Bank Ltd''])) = Some ''HDFC Bank Ltd''
   \<and> is_whitespace (CHR 0x09) \<and> CHR 0x09 \<in> set tab_fragment
   \<and> spec_tokens tab_fragment = [''HDFCBANK'', ''INE040A01034'']
   \<and> handleData (feed new_SymbolParser [''HDFC Bank Ltd'']) tab_fragment
       \<noteq> foldl handleData (feed new_SymbolParser [''HDFC Bank Ltd'']) (spec_tokens tab_fragment)
   \<and> result (feed new_SymbolParser [''HDFC Bank Ltd'', tab_fragment, ''500180'']) =
       \<lparr>company_name = Some ''HDFC Bank Ltd'', symbol = Some tab_fragment,
        isin = Some ''500180'', bse_code = None\<rparr>"
  by (simp add: feed_company_name spec_tokens_def tab_fragment_def handleData.simps
      parser_defs)

text \<open>
  C6 (amended): a fragment containing a space character is split at its spaces into the
  pieces that are not blank, each dispatched in order, exactly when \<open>company_name\<close> has
  already been populated; a fragment without a space character, whatever other white
  space it holds, and any fragment met while \<open>company_name\<close> is not populated, is never
  split: it fills the current slot whole, or is dropped when the parser has not started,
  all slots are used or the current slot is taken.  Feeding \<open>HDFC Bank Ltd\<close>,
  \<open>HDFCBANK  INE040A01034\<close>, \<open>500180\<close> yields the same four-field record as feeding each
  field as a fragment of its own.
\<close>

theorem C6_split_on_space:
  "(company_name (result p) \<noteq> None \<and> CHR '' '' \<in> set data \<longrightarrow>
      handleData p data = foldl handleData p (parts_of data))
   \<and> (company_name (result p) = None \<or> CHR '' '' \<notin> set data \<longrightarrow>
      handleData p data =
        (if \<not> start p \<or> index p \<ge> length field_order
             \<or> get_field (field_order ! index p) (result p) \<noteq> None then p
         else p\<lparr>result := set_field (field_order ! index p) (trim data) (result p),
                index := index p + 1\<rparr>))
   \<and> result (feed new_SymbolParser [''HDFC Bank Ltd'', ''HDFCBANK  INE040A01034'', ''500180''])
       = hdfc_record
   \<and> result (feed new_SymbolParser
        [''HDFC Bank Ltd'', ''HDFCBANK'', ''INE040A01034'', ''500180'']) = hdfc_record"
  using handleData_split[of p data] handleData_whole[of p data]
    feed_separate_fragments feed_combined_fragment
  by blast

theorem C6_split_on_space_witness:
  "handleData (feed new_SymbolParser [''HDFC Bank Ltd'']) ''HDFCBANK  INE040A01034''
     = foldl handleData (feed new_SymbolParser [''HDFC Bank Ltd''])
         [''HDFCBANK'', ''INE040A01034'']
   \<and> handleData (new_SymbolParser\<lparr>start := True\<rparr>) ''HDFC Bank Ltd''
     = \<lparr>result = \<lparr>company_name = Some ''HDFC Bank Ltd'', symbol = None, isin = None,
                   bse_code = None\<rparr>, start = True, index = 1\<rparr>"
proof -
  have a: "company_name (result (feed new_SymbolParser [''HDFC Bank Ltd''])) \<noteq> None"
    by (simp add: feed_company_name)
  have b: "CHR '' '' \<in> set ''HDFCBANK  INE040A01034''" by simp
  have c: "parts_of ''HDFCBANK  INE040A01034'' = [''HDFCBANK'', ''INE040A01034'']"
    by (simp add: parser_defs)
  have d: "company_name (result (new_SymbolParser\<lparr>start := True\<rparr>)) = None"
    by (simp add: new_SymbolParser_def empty_result_def)
  from a b c d
    C6_split_on_space[of "feed new_SymbolParser [''HDFC Bank Ltd'']" "''HDFCBANK  INE040A01034''"]
    C6_split_on_space[of "new_SymbolParser\<lparr>start := True\<rparr>" "''HDFC Bank Ltd''"]
  show ?thesis by (simp add: parser_defs)
qed

section \<open>The throttle: results\<close>








end
